theory Spec2Isabelle
  imports Main
begin

section \<open>Python strings\<close>

text \<open>
  A Python \<open>str\<close> is a sequence of Unicode code points, so a string is modelled as a
  list of code point numbers.  ASCII text is written with \<open>u\<close>; Arabic text is written
  as its code points.
\<close>

type_synonym ustr = "nat list"

definition u :: "string \<Rightarrow> ustr" where
  "u s = map of_char s"

text \<open>
  \<open>str.isspace\<close> per character.  The same set is used by \<open>str.strip()\<close>,
  \<open>str.split()\<close> and the pattern \<open>\s\<close> of \<open>re\<close> on \<open>str\<close> patterns.
\<close>

definition isspace :: "nat \<Rightarrow> bool" where
  "isspace c = ((9 \<le> c \<and> c \<le> 13) \<or> (28 \<le> c \<and> c \<le> 32) \<or> c = 133 \<or> c = 160
     \<or> c = 5760 \<or> (8192 \<le> c \<and> c \<le> 8202) \<or> c = 8232 \<or> c = 8233 \<or> c = 8239
     \<or> c = 8287 \<or> c = 12288)"

text \<open>
  The decimal digits (Unicode category Nd, as of Unicode 14): the first code point of
  every block.  Each block holds the digits 0 to 9 in order; the block at 120782 holds
  five such runs.  This is \<open>\d\<close> of \<open>re\<close> and the digits \<open>int()\<close> accepts.
\<close>

definition decimal_blocks :: "(nat \<times> nat) list" where
  "decimal_blocks = [(1632, 10), (1776, 10), (1984, 10), (2406, 10), (2534, 10),
     (2662, 10), (2790, 10), (2918, 10), (3046, 10), (3174, 10), (3302, 10), (3430, 10),
     (3558, 10), (3664, 10), (3792, 10), (3872, 10), (4160, 10), (4240, 10), (6112, 10),
     (6160, 10), (6470, 10), (6608, 10), (6784, 10), (6800, 10), (6992, 10), (7088, 10),
     (7232, 10), (7248, 10), (42528, 10), (43216, 10), (43264, 10), (43472, 10),
     (43504, 10), (43600, 10), (44016, 10), (65296, 10), (66720, 10), (68912, 10),
     (69734, 10), (69872, 10), (69942, 10), (70096, 10), (70384, 10), (70736, 10),
     (70864, 10), (71248, 10), (71360, 10), (71472, 10), (71904, 10), (72016, 10),
     (72784, 10), (73040, 10), (73120, 10), (92768, 10), (92864, 10), (93008, 10),
     (120782, 50), (123200, 10), (123632, 10), (125264, 10), (130032, 10)]"

fun decimal_value_in :: "(nat \<times> nat) list \<Rightarrow> nat \<Rightarrow> nat option" where
  "decimal_value_in [] c = None"
| "decimal_value_in ((b, n) # bs) c =
     (if b \<le> c \<and> c < b + n then Some ((c - b) mod 10) else decimal_value_in bs c)"

definition decimal_value :: "nat \<Rightarrow> nat option" where
  "decimal_value c =
     (if c < 128 then (if 48 \<le> c \<and> c \<le> 57 then Some (c - 48) else None)
      else decimal_value_in decimal_blocks c)"

definition isdecimal :: "nat \<Rightarrow> bool" where
  "isdecimal c = (decimal_value c \<noteq> None)"

definition py_strip :: "ustr \<Rightarrow> ustr" where
  "py_strip s = rev (dropWhile isspace (rev (dropWhile isspace s)))"

definition py_rstrip_chars :: "ustr \<Rightarrow> ustr \<Rightarrow> ustr" where
  "py_rstrip_chars cs s = rev (dropWhile (\<lambda>c. c \<in> set cs) (rev s))"

text \<open>\<open>s.startswith(w)\<close>\<close>

fun py_startswith :: "ustr \<Rightarrow> ustr \<Rightarrow> bool" where
  "py_startswith s [] = True"
| "py_startswith [] (x # w) = False"
| "py_startswith (c # s) (x # w) = (c = x \<and> py_startswith s w)"

text \<open>\<open>w in s\<close> on strings: \<open>w\<close> occurs in \<open>s\<close> as a contiguous run.\<close>

fun py_in :: "ustr \<Rightarrow> ustr \<Rightarrow> bool" where
  "py_in w [] = (w = [])"
| "py_in w (c # s) = (py_startswith (c # s) w \<or> py_in w s)"

text \<open>
  \<open>s.split()\<close> with no argument: the maximal runs of non-whitespace, in order.
  The first argument is the word being read.
\<close>

fun split_ws :: "ustr \<Rightarrow> ustr \<Rightarrow> ustr list" where
  "split_ws w [] = (if w = [] then [] else [w])"
| "split_ws w (c # s) =
     (if isspace c then (if w = [] then split_ws [] s else w # split_ws [] s)
      else split_ws (w @ [c]) s)"

definition py_split :: "ustr \<Rightarrow> ustr list" where
  "py_split s = split_ws [] s"

text \<open>\<open>sep.join(ws)\<close>\<close>

fun py_join :: "ustr \<Rightarrow> ustr list \<Rightarrow> ustr" where
  "py_join sep [] = []"
| "py_join sep [w] = w"
| "py_join sep (w # v # ws) = w @ sep @ py_join sep (v # ws)"

text \<open>\<open>s[a:b]\<close> for \<open>0 \<le> a \<le> b\<close>\<close>

definition slice :: "ustr \<Rightarrow> nat \<Rightarrow> nat \<Rightarrow> ustr" where
  "slice s a b = take (b - a) (drop a s)"

section \<open>Regular expressions of the \<open>re\<close> module\<close>

text \<open>
  The patterns of the source are written as terms of \<open>rx\<close> and run by a backtracking
  matcher that lists the ways a pattern can match at a position, most preferred first,
  as the engine of \<open>re\<close> tries them.
\<close>

datatype cset = Rng nat nat | Digit | Space

fun in_cset :: "cset \<Rightarrow> nat \<Rightarrow> bool" where
  "in_cset (Rng a b) c = (a \<le> c \<and> c \<le> b)"
| "in_cset Digit c = isdecimal c"
| "in_cset Space c = isspace c"

definition in_class :: "cset list \<Rightarrow> nat \<Rightarrow> bool" where
  "in_class ks c = list_ex (\<lambda>k. in_cset k c) ks"

datatype rx =
    Lit ustr
  | In "cset list"
  | NotIn "cset list"
  | Seq rx rx
  | Alt rx rx
  | Rep rx nat "nat option" bool
  | Grp nat rx
  | Ahead rx
  | Bol

text \<open>
  \<open>Rep r lo hi greedy\<close> is \<open>r{lo,hi}\<close> (\<open>hi = None\<close>: unbounded), lazy when
  \<open>greedy\<close> is false; \<open>Grp n r\<close> is the capturing group number \<open>n\<close>; \<open>Ahead r\<close> is
  \<open>(?=r)\<close>; \<open>Bol\<close> is \<open>^\<close> (without MULTILINE: the start of the string).
\<close>

definition star :: "rx \<Rightarrow> rx" where "star r = Rep r 0 None True"
definition plus :: "rx \<Rightarrow> rx" where "plus r = Rep r 1 None True"
definition plus_lazy :: "rx \<Rightarrow> rx" where "plus_lazy r = Rep r 1 None False"
definition star_lazy :: "rx \<Rightarrow> rx" where "star_lazy r = Rep r 0 None False"
definition opt :: "rx \<Rightarrow> rx" where "opt r = Rep r 0 (Some 1) True"

fun cat :: "rx list \<Rightarrow> rx" where
  "cat [] = Lit []"
| "cat [r] = r"
| "cat (r # q # rs) = Seq r (cat (q # rs))"

primrec rx_depth :: "rx \<Rightarrow> nat" where
  "rx_depth (Lit w) = 0"
| "rx_depth (In ks) = 0"
| "rx_depth (NotIn ks) = 0"
| "rx_depth (Seq a b) = Suc (rx_depth a + rx_depth b)"
| "rx_depth (Alt a b) = Suc (rx_depth a + rx_depth b)"
| "rx_depth (Rep a lo hi g) = Suc (rx_depth a)"
| "rx_depth (Grp n a) = Suc (rx_depth a)"
| "rx_depth (Ahead a) = Suc (rx_depth a)"
| "rx_depth Bol = 0"

text \<open>
  A matcher state: the position, the text from that position on, and the groups
  captured so far (group number, start, end), the latest first.
\<close>

type_synonym caps = "(nat \<times> nat \<times> nat) list"
type_synonym mstate = "nat \<times> ustr \<times> caps"

fun dec_hi :: "nat option \<Rightarrow> nat option" where
  "dec_hi None = None"
| "dec_hi (Some h) = Some (h - 1)"

function ms :: "rx \<Rightarrow> mstate \<Rightarrow> mstate list" where
  "ms (Lit w) (i, s, c) =
     (if py_startswith s w then [(i + length w, drop (length w) s, c)] else [])"
| "ms (In ks) (i, s, c) =
     (case s of [] \<Rightarrow> [] | x # s' \<Rightarrow> if in_class ks x then [(Suc i, s', c)] else [])"
| "ms (NotIn ks) (i, s, c) =
     (case s of [] \<Rightarrow> [] | x # s' \<Rightarrow> if in_class ks x then [] else [(Suc i, s', c)])"
| "ms (Seq a b) (i, s, c) = concat (map (\<lambda>st. ms b st) (ms a (i, s, c)))"
| "ms (Alt a b) (i, s, c) = ms a (i, s, c) @ ms b (i, s, c)"
| "ms (Grp n a) (i, s, c) =
     map (\<lambda>(j, s', c'). (j, s', (n, i, j) # c')) (ms a (i, s, c))"
| "ms (Ahead a) (i, s, c) = (if ms a (i, s, c) = [] then [] else [(i, s, c)])"
| "ms Bol (i, s, c) = (if i = 0 then [(i, s, c)] else [])"
| "ms (Rep a lo hi g) (i, s, c) =
     (let more = (if hi = Some 0 then []
                  else concat (map (\<lambda>(j, s', c').
                         if length s' < length s
                         then ms (Rep a (lo - 1) (dec_hi hi) g) (j, s', c') else [])
                       (ms a (i, s, c))));
          stop = (if lo = 0 then [(i, s, c)] else [])
      in if g then more @ stop else stop @ more)"
  by pat_completeness auto
termination
  by (relation "inv_image (less_than <*lex*> less_than)
        (\<lambda>(r, i, s, c). (rx_depth r, length s))") auto

text \<open>
  \<open>match_at r adv i s\<close>: the engine's first way to match \<open>r\<close> at position \<open>i\<close>,
  where \<open>s\<close> is the text from \<open>i\<close> on.  With \<open>adv\<close> an empty match is refused and
  the engine backtracks, as it does right after an empty match at the same position.
\<close>

type_synonym rmatch = "nat \<times> nat \<times> caps"

definition match_at :: "rx \<Rightarrow> bool \<Rightarrow> nat \<Rightarrow> ustr \<Rightarrow> (nat \<times> caps) option" where
  "match_at r adv i s =
     (case filter (\<lambda>(j, s', c). if adv then j \<noteq> i else True) (ms r (i, s, [])) of
        [] \<Rightarrow> None
      | (j, s', c) # rest \<Rightarrow> Some (j, c))"

text \<open>
  The scanner behind \<open>finditer\<close>, \<open>findall\<close>, \<open>sub\<close> and \<open>split\<close>: the matches
  from left to right, none starting before \<open>pos\<close>, the end of the previous one.
  \<open>i\<close> is the current position and the last argument the text from \<open>i\<close> on.
\<close>

fun scan :: "rx \<Rightarrow> nat \<Rightarrow> nat \<Rightarrow> ustr \<Rightarrow> rmatch list" where
  "scan r pos i [] =
     (if i < pos then []
      else case match_at r False i [] of None \<Rightarrow> [] | Some (j, c) \<Rightarrow> [(i, j, c)])"
| "scan r pos i (x # s) =
     (if i < pos then scan r pos (Suc i) s
      else case match_at r False i (x # s) of
        None \<Rightarrow> scan r pos (Suc i) s
      | Some (j, c) \<Rightarrow>
          if i < j then (i, j, c) # scan r j (Suc i) s
          else (case match_at r True i (x # s) of
                  None \<Rightarrow> (i, j, c) # scan r pos (Suc i) s
                | Some (j', c') \<Rightarrow> (i, j, c) # (i, j', c') # scan r j' (Suc i) s))"

definition re_finditer :: "rx \<Rightarrow> ustr \<Rightarrow> rmatch list" where
  "re_finditer r s = scan r 0 0 s"

fun search_from :: "rx \<Rightarrow> nat \<Rightarrow> ustr \<Rightarrow> rmatch option" where
  "search_from r i [] =
     (case match_at r False i [] of None \<Rightarrow> None | Some (j, c) \<Rightarrow> Some (i, j, c))"
| "search_from r i (x # s) =
     (case match_at r False i (x # s) of
        Some (j, c) \<Rightarrow> Some (i, j, c)
      | None \<Rightarrow> search_from r (Suc i) s)"

definition re_search :: "rx \<Rightarrow> ustr \<Rightarrow> rmatch option" where
  "re_search r s = search_from r 0 s"

definition re_match :: "rx \<Rightarrow> ustr \<Rightarrow> rmatch option" where
  "re_match r s = (case match_at r False 0 s of None \<Rightarrow> None | Some (j, c) \<Rightarrow> Some (0, j, c))"

definition m_start :: "rmatch \<Rightarrow> nat" where
  "m_start m = fst m"

text \<open>
  \<open>m.group(n)\<close> for \<open>n \<ge> 1\<close>.  Every group of the source's patterns takes part in
  every match, so the case of a group that did not is not reached.
\<close>

definition group :: "ustr \<Rightarrow> rmatch \<Rightarrow> nat \<Rightarrow> ustr" where
  "group s m n = (case map_of (snd (snd m)) n of None \<Rightarrow> [] | Some (a, b) \<Rightarrow> slice s a b)"

text \<open>\<open>re.sub(r, '', s)\<close>: the text between the matches.\<close>

fun between :: "ustr \<Rightarrow> nat \<Rightarrow> rmatch list \<Rightarrow> ustr list" where
  "between s p [] = [drop p s]"
| "between s p ((a, b, c) # rest) = slice s p a # between s b rest"

definition re_sub_empty :: "rx \<Rightarrow> ustr \<Rightarrow> ustr" where
  "re_sub_empty r s = concat (between s 0 (re_finditer r s))"

text \<open>\<open>re.split(r, s)\<close> for a pattern without groups.\<close>

definition re_split :: "rx \<Rightarrow> ustr \<Rightarrow> ustr list" where
  "re_split r s = between s 0 (re_finditer r s)"

text \<open>\<open>re.findall(r, s)\<close> for a pattern with one group.\<close>

definition re_findall :: "rx \<Rightarrow> ustr \<Rightarrow> ustr list" where
  "re_findall r s = map (\<lambda>m. group s m 1) (re_finditer r s)"

section \<open>Python values, \<open>int()\<close> and \<open>str()\<close>\<close>

datatype error = ValueError

text \<open>A value read from the JSON input, or \<open>None\<close>.\<close>

datatype pyval = PNone | PInt int | PStr ustr

text \<open>A dict with string keys, as the list of its items in insertion order.\<close>

type_synonym pydict = "(string \<times> pyval) list"

text \<open>
  \<open>d[k] = v\<close>: a key already present keeps its place and takes the new value, a new
  key goes last.  A dict display \<open>{k1: v1, k2: v2, ...}\<close> stores its items from left
  to right.
\<close>

fun dict_set :: "('k \<times> 'v) list \<Rightarrow> 'k \<Rightarrow> 'v \<Rightarrow> ('k \<times> 'v) list" where
  "dict_set [] k v = [(k, v)]"
| "dict_set ((k', v') # d) k v = (if k' = k then (k, v) # d else (k', v') # dict_set d k v)"

definition dict_display :: "('k \<times> 'v) list \<Rightarrow> ('k \<times> 'v) list" where
  "dict_display kvs = foldl (\<lambda>d (k, v). dict_set d k v) [] kvs"

text \<open>
  \<open>int(s)\<close> on a string: whitespace around, a sign, then decimal digits of any script,
  single underscores allowed between digits.  More than 4300 digits raise ValueError
  (the default limit of CPython 3.11).  \<open>None\<close> stands for ValueError.
\<close>

definition int_space :: "nat \<Rightarrow> bool" where
  "int_space c = (isspace c \<and> (c < 28 \<or> 31 < c))"

fun digits_us :: "bool \<Rightarrow> ustr \<Rightarrow> nat list option" where
  "digits_us prev [] = (if prev then Some [] else None)"
| "digits_us prev (c # s) =
     (if c = 95 then (if prev \<and> s \<noteq> [] then digits_us False s else None)
      else case decimal_value c of
        None \<Rightarrow> None
      | Some d \<Rightarrow> (case digits_us True s of None \<Rightarrow> None | Some ds \<Rightarrow> Some (d # ds)))"

definition max_str_digits :: nat where
  "max_str_digits = 4300"

definition py_int :: "ustr \<Rightarrow> int option" where
  "py_int s =
     (let t = rev (dropWhile int_space (rev (dropWhile int_space s)));
          neg = (case t of [] \<Rightarrow> False | c # r \<Rightarrow> c = 45);
          body = (case t of [] \<Rightarrow> [] | c # r \<Rightarrow> if c = 43 \<or> c = 45 then r else t)
      in case digits_us False body of
           None \<Rightarrow> None
         | Some ds \<Rightarrow>
             if max_str_digits < length ds then None
             else Some ((if neg then - 1 else 1) * int (foldl (\<lambda>a d. 10 * a + d) 0 ds)))"

text \<open>The decimal digits of a natural number, as ASCII.\<close>

fun digits_of :: "nat \<Rightarrow> ustr" where
  "digits_of n = (if n < 10 then [48 + n] else digits_of (n div 10) @ [48 + n mod 10])"

declare digits_of.simps [simp del]

text \<open>\<open>str(n)\<close> of an int; more than 4300 digits raise ValueError.\<close>

definition str_int :: "int \<Rightarrow> error + ustr" where
  "str_int n =
     (let ds = digits_of (nat \<bar>n\<bar>)
      in if max_str_digits < length ds then Inl ValueError
         else Inr (if n < 0 then 45 # ds else ds))"

definition py_str :: "pyval \<Rightarrow> error + ustr" where
  "py_str v = (case v of PNone \<Rightarrow> Inr (u ''None'') | PInt n \<Rightarrow> str_int n | PStr s \<Rightarrow> Inr s)"

text \<open>\<open>s.zfill(w)\<close>: zeros on the left up to width \<open>w\<close>, after a leading sign.\<close>

definition zfill :: "nat \<Rightarrow> ustr \<Rightarrow> ustr" where
  "zfill w s =
     (case s of
        [] \<Rightarrow> replicate w 48
      | c # r \<Rightarrow>
          if c = 43 \<or> c = 45 then c # replicate (w - length s) 48 @ r
          else replicate (w - length s) 48 @ s)"

text \<open>The format \<open>{n:05d}\<close> of an f-string.\<close>

definition fmt_05d :: "int \<Rightarrow> error + ustr" where
  "fmt_05d n = (case str_int n of Inl e \<Rightarrow> Inl e | Inr s \<Rightarrow> Inr (zfill 5 s))"

section \<open>\<open>JarhWaTadilExtractor\<close> (jarh_tadeel_extract.py)\<close>

subsection \<open>Data model and lexicons\<close>

record JarhTadilRecord =
  narrator_id :: ustr
  full_name :: ustr
  taadil :: "pydict list"
  jarh :: "pydict list"
  unclassified :: "pydict list"
  teachers :: "ustr list"
  students :: "ustr list"
  source_volume :: int
  source_page :: pyval

text \<open>The extractor object: \<open>self.records\<close> and \<open>self.counter\<close>.\<close>

record extractor =
  records :: "JarhTadilRecord list"
  counter :: int

definition new_extractor :: extractor where
  "new_extractor = \<lparr>records = [], counter = 1\<rparr>"

text \<open>
  The two lexicons are dict displays from Arabic term to English label; the items are
  listed as the source writes them, repeated keys included.
\<close>

definition taadil_terms :: "(ustr \<times> ustr) list" where
  "taadil_terms = dict_display
    [([1579, 1602, 1577, 32, 1579, 1602, 1577], u ''Thiqa Thiqa''),
     ([1579, 1602, 1577, 32, 1579, 1576, 1578], u ''Thiqa Thabt''),
     ([1579, 1602, 1577, 32, 1581, 1575, 1601, 1592], u ''Thiqa Hafiz''),
     ([1573, 1605, 1575, 1605, 32, 1581, 1575, 1601, 1592], u ''Imam Hafiz''),
     ([1581, 1580, 1577], u ''Hujjah''),
     ([1579, 1602, 1577], u ''Thiqa''),
     ([1579, 1576, 1578], u ''Thabt''),
     ([1589, 1583, 1608, 1602], u ''Saduq''),
     ([1604, 1575, 32, 1576, 1571, 1587, 32, 1576, 1607],
        [76, 97, 32, 98, 97, 39, 115, 32, 98, 105, 104, 105]),
     ([1605, 1581, 1604, 1607, 32, 1575, 1604, 1589, 1583, 1602], u ''Truthful''),
     ([1589, 1575, 1604, 1581, 32, 1575, 1604, 1581, 1583, 1610, 1579], u ''Salih al-Hadith''),
     ([1610, 1603, 1578, 1576, 32, 1581, 1583, 1610, 1579, 1607], u ''His hadith is written''),
     ([1589, 1583, 1608, 1602, 32, 1610, 1607, 1605], u ''Saduq (but makes mistakes)''),
     ([1589, 1575, 1604, 1581], u ''Salih''),
     ([1588, 1610, 1582], u ''Shaykh''),
     ([1608, 1587, 1591], u ''Average''),
     ([1589, 1575, 1604, 1581, 32, 1575, 1604, 1581, 1583, 1610, 1579], u ''Salih al-hadith'')]"

definition jarh_terms :: "(ustr \<times> ustr) list" where
  "jarh_terms = dict_display
    [([1608, 1587, 1591], u ''Average''),
     ([1590, 1593, 1610, 1601], [68, 97, 39, 105, 102]),
     ([1604, 1610, 1606, 32, 1575, 1604, 1581, 1583, 1610, 1579], u ''Layyin al-Hadith''),
     ([1604, 1610, 1587, 32, 1576, 1575, 1604, 1602, 1608, 1610], u ''Not strong''),
     ([1610, 1607, 1605], u ''Makes mistakes''),
     ([1605, 1606, 1603, 1585, 32, 1575, 1604, 1581, 1583, 1610, 1579], u ''Munkar al-Hadith''),
     ([1587, 1610, 1574, 32, 1575, 1604, 1581, 1601, 1592], u ''Poor memory''),
     ([1605, 1578, 1585, 1608, 1603], u ''Matruk''),
     ([1605, 1578, 1585, 1608, 1603, 32, 1575, 1604, 1581, 1583, 1610, 1579],
        u ''Matruk al-Hadith''),
     ([1603, 1584, 1575, 1576], u ''Kadhdhab''),
     ([1608, 1590, 1575, 1593], u ''Fabricator''),
     ([1587, 1575, 1602, 1591], u ''Saqit''),
     ([1590, 1593, 1610, 1601], u ''Daif''),
     ([1604, 1610, 1587, 32, 1576, 1575, 1604, 1602, 1608, 1610], u ''Not strong''),
     ([1601, 1610, 1607, 32, 1604, 1610, 1606], u ''Layyin'')]"

subsection \<open>Utilities\<close>

text \<open>\<open>text.translate(str.maketrans(...))\<close>: the ten Arabic-Indic digits to ASCII.\<close>

definition arabic_to_western :: "ustr \<Rightarrow> ustr" where
  "arabic_to_western s = map (\<lambda>c. if 1632 \<le> c \<and> c \<le> 1641 then c - 1632 + 48 else c) s"

abbreviation sp :: rx where "sp \<equiv> In [Space]"
abbreviation dg :: rx where "dg \<equiv> In [Digit]"
abbreviation ar :: rx where "ar \<equiv> In [Rng 1571 1610]"

text \<open>Line 78: a parenthesised run of digits, blanks allowed inside the parentheses.\<close>

definition footnote_pattern :: rx where
  "footnote_pattern =
     cat [Lit [40], star sp, plus (In [Rng 1632 1641, Rng 48 57]), star sp, Lit [41]]"

text \<open>Line 79: a bracketed span with at least one character other than the closing bracket.\<close>

definition bracket_pattern :: rx where
  "bracket_pattern = cat [Lit [91], star sp, plus_lazy (NotIn [Rng 93 93]), star sp, Lit [93]]"

definition remove_footnotes :: "ustr \<Rightarrow> ustr" where
  "remove_footnotes s = re_sub_empty bracket_pattern (re_sub_empty footnote_pattern s)"

subsection \<open>Segmenting a page\<close>

definition boundary_pattern :: rx where
  "boundary_pattern = Ahead (cat [opt (Lit [10]), plus dg, star sp, Lit [45], star sp])"

definition marker_pattern :: rx where
  "marker_pattern = cat [Bol, plus dg, star sp, Lit [45], star sp]"

definition segment_entries :: "ustr \<Rightarrow> ustr list" where
  "segment_entries s =
     (let parts = re_split boundary_pattern (arabic_to_western s)
      in map py_strip (filter (\<lambda>p. re_match marker_pattern p \<noteq> None) parts))"

subsection \<open>Name extraction\<close>

definition name_pattern :: rx where
  "name_pattern =
     cat [Bol, plus dg, star sp, Lit [45], star sp,
          Grp 1 (cat [plus ar,
            Rep (cat [plus sp, Alt (Lit [1576, 1606]) (Lit [1575, 1576, 1606]), plus sp, plus ar])
              1 (Some 6) True])]"

text \<open>\<open>entry.split('\n', 1)[0]\<close>: the text before the first newline.\<close>

definition first_line :: "ustr \<Rightarrow> ustr" where
  "first_line s = takeWhile (\<lambda>c. c \<noteq> 10) s"

definition extract_name :: "ustr \<Rightarrow> ustr option" where
  "extract_name entry =
     (let header = remove_footnotes (first_line entry)
      in case re_match name_pattern header of
           None \<Rightarrow> None
         | Some m \<Rightarrow> Some (py_strip (group header m 1)))"

subsection \<open>Teachers and students\<close>

definition names_group :: rx where
  "names_group =
     Grp 1 (cat [plus (In [Rng 1571 1610, Space, Rng 1608 1608, Rng 44 44]),
                 plus (cat [Lit [1576, 1606], plus sp, plus ar])])"

definition teacher_patterns :: "rx list" where
  "teacher_patterns =
     [cat [Lit [1585, 1608, 1609, 32, 1593, 1606], plus sp, names_group],
      cat [Lit [1587, 1605, 1593], opt (cat [plus sp, Lit [1605, 1606]]), plus sp, names_group]]"

definition student_patterns :: "rx list" where
  "student_patterns =
     [cat [Lit [1585, 1608, 1609, 32, 1593, 1606, 1607], plus sp, names_group],
      cat [Lit [1581, 1583, 1579, 32, 1593, 1606, 1607], plus sp, names_group]]"

definition split_names :: "ustr \<Rightarrow> ustr list" where
  "split_names raw =
     (let names = re_split (plus (In [Rng 1608 1608, Rng 44 44])) raw
      in map py_strip (filter (\<lambda>n. py_strip n \<noteq> []) names))"

text \<open>
  \<open>teachers\<close> and \<open>students\<close> are Python sets.  A set is modelled by the sequence
  of elements added to it; \<open>list(a_set)\<close> enumerates the set in an order the language
  leaves open (for strings it follows their hashes, which change from one interpreter
  process to the next), so it is a parameter \<open>order\<close> of the model: any function
  for which \<open>set_order\<close> holds.
\<close>

definition set_order :: "(ustr list \<Rightarrow> ustr list) \<Rightarrow> bool" where
  "set_order order = (\<forall>xs. set (order xs) = set xs \<and> distinct (order xs))"

definition add_matches :: "ustr \<Rightarrow> ustr list \<Rightarrow> rx \<Rightarrow> ustr list" where
  "add_matches s added p =
     foldl (\<lambda>acc m. foldl (\<lambda>acc' name. acc' @ [name]) acc (split_names (group s m 1)))
       added (re_finditer p s)"

definition extract_teachers_students ::
    "(ustr list \<Rightarrow> ustr list) \<Rightarrow> ustr \<Rightarrow> ustr list \<times> ustr list" where
  "extract_teachers_students order s =
     (let te = foldl (add_matches s) [] teacher_patterns;
          st = foldl (add_matches s) [] student_patterns
      in (order te, order st))"

subsection \<open>Judgements\<close>

definition evaluator_pattern :: rx where
  "evaluator_pattern =
     cat [Alt (Lit [1602, 1575, 1604]) (Lit [1608, 1602, 1575, 1604]), plus sp,
          Grp 1 (plus_lazy (In [Rng 1571 1610, Space])),
          In [Rng 58 58, Rng 65306 65306], star sp,
          Grp 2 (Rep (NotIn [Rng 46 46, Rng 1548 1548, Rng 10 10]) 2 (Some 200) True)]"

definition judgement :: "ustr \<Rightarrow> ustr \<Rightarrow> pyval \<Rightarrow> pydict" where
  "judgement en txt by =
     [(''statement'', PStr en), (''exact_text'', PStr txt), (''evaluated_by'', by)]"

text \<open>
  One loop over a lexicon for an attributed phrase (lines 148 to 155 and 157 to 164):
  the state is the list appended to and the flag \<open>classified\<close>.
\<close>

definition classify :: "(ustr \<times> ustr) list \<Rightarrow> ustr \<Rightarrow> ustr \<Rightarrow> pydict list \<times> bool
    \<Rightarrow> pydict list \<times> bool" where
  "classify terms phrase evaluator acc =
     foldl (\<lambda>(out, classified) (a, en).
              if py_in a phrase then (out @ [judgement en phrase (PStr evaluator)], True)
              else (out, classified))
       acc terms"

text \<open>The body of the loop over the matches of the evaluator pattern.\<close>

definition attributed :: "ustr \<Rightarrow> pydict list \<times> pydict list \<times> pydict list \<Rightarrow> rmatch
    \<Rightarrow> pydict list \<times> pydict list \<times> pydict list" where
  "attributed s acc m =
     (case acc of (ta, ja, un) \<Rightarrow>
        let evaluator = py_strip (group s m 1);
            phrase = py_strip (group s m 2)
        in case classify taadil_terms phrase evaluator (ta, False) of
             (ta', classified') \<Rightarrow>
               (case classify jarh_terms phrase evaluator (ja, classified') of
                  (ja', classified) \<Rightarrow>
                    (ta', ja',
                     if classified then un
                     else un @ [[(''exact_text'', PStr phrase), (''evaluated_by'', PStr evaluator)]])))"

text \<open>One loop of the standalone scan (lines 173 to 179 and 181 to 187).\<close>

definition standalone :: "(ustr \<times> ustr) list \<Rightarrow> ustr \<Rightarrow> pydict list \<Rightarrow> pydict list" where
  "standalone terms s out =
     foldl (\<lambda>out' (a, en). if py_in a s then out' @ [judgement en a PNone] else out')
       out terms"

definition extract_judgements :: "ustr \<Rightarrow> pydict list \<times> pydict list \<times> pydict list" where
  "extract_judgements s =
     (case foldl (attributed s) ([], [], []) (re_finditer evaluator_pattern s) of
        (ta, ja, un) \<Rightarrow> (standalone taadil_terms s ta, standalone jarh_terms s ja, un))"

subsection \<open>Processing an entry and the driver\<close>

text \<open>
  \<open>process_entry\<close> returns the record (or \<open>None\<close>) and the extractor after the call.
  \<open>if not name\<close> holds for \<open>None\<close> and for the empty string.
\<close>

definition process_entry :: "(ustr list \<Rightarrow> ustr list) \<Rightarrow> extractor \<Rightarrow> ustr \<Rightarrow> pyval \<Rightarrow> int
    \<Rightarrow> error + (JarhTadilRecord option \<times> extractor)" where
  "process_entry order ex entry page vol =
     (case extract_name entry of
        None \<Rightarrow> Inr (None, ex)
      | Some name \<Rightarrow>
          if name = [] then Inr (None, ex)
          else case extract_judgements entry of (ta, ja, un) \<Rightarrow>
               (case extract_teachers_students order entry of (te, st) \<Rightarrow>
               (case fmt_05d (counter ex) of
                  Inl e \<Rightarrow> Inl e
                | Inr num \<Rightarrow>
                    Inr (Some \<lparr>narrator_id = 78 # num, full_name = name, taadil = ta,
                               jarh = ja, unclassified = un, teachers = te, students = st,
                               source_volume = vol, source_page = page\<rparr>,
                         ex\<lparr>counter := counter ex + 1\<rparr>))))"

text \<open>A page of the input: the values under the keys \<open>vol\<close>, \<open>text\<close> and \<open>page\<close>.\<close>

record page =
  p_vol :: "pyval option"
  p_text :: "ustr option"
  p_page :: "pyval option"

definition get :: "'a option \<Rightarrow> 'a \<Rightarrow> 'a" where
  "get v d = (case v of None \<Rightarrow> d | Some x \<Rightarrow> x)"

text \<open>\<open>int(self.arabic_to_western(str(page.get("vol", "1"))))\<close>\<close>

definition page_volume :: "page \<Rightarrow> error + int" where
  "page_volume p =
     (case py_str (get (p_vol p) (PStr (u ''1''))) of
        Inl e \<Rightarrow> Inl e
      | Inr s \<Rightarrow> (case py_int (arabic_to_western s) of None \<Rightarrow> Inl ValueError | Some v \<Rightarrow> Inr v))"

text \<open>The loop over the entries of a page (lines 228 to 231).\<close>

fun process_entries :: "(ustr list \<Rightarrow> ustr list) \<Rightarrow> extractor \<Rightarrow> ustr list \<Rightarrow> pyval \<Rightarrow> int
    \<Rightarrow> error + extractor" where
  "process_entries order ex [] pg vol = Inr ex"
| "process_entries order ex (entry # entries) pg vol =
     (case process_entry order ex entry pg vol of
        Inl e \<Rightarrow> Inl e
      | Inr (None, ex') \<Rightarrow> process_entries order ex' entries pg vol
      | Inr (Some r, ex') \<Rightarrow>
          process_entries order (ex'\<lparr>records := records ex' @ [r]\<rparr>) entries pg vol)"

text \<open>The loop over the pages (lines 220 to 231); the result is the extractor at the end.\<close>

fun extract_from_json :: "(ustr list \<Rightarrow> ustr list) \<Rightarrow> extractor \<Rightarrow> page list \<Rightarrow> int
    \<Rightarrow> error + extractor" where
  "extract_from_json order ex [] start_volume = Inr ex"
| "extract_from_json order ex (p # pages) start_volume =
     (case page_volume p of
        Inl e \<Rightarrow> Inl e
      | Inr vol \<Rightarrow>
          if vol < start_volume then extract_from_json order ex pages start_volume
          else case process_entries order ex (segment_entries (get (p_text p) [])) 
                      (get (p_page p) PNone) vol of
                 Inl e \<Rightarrow> Inl e
               | Inr ex' \<Rightarrow> extract_from_json order ex' pages start_volume)"

section \<open>\<open>NarratorExtractor\<close> (jarh_tadil_extractor.py)\<close>

subsection \<open>Data model and keyword lists\<close>

text \<open>The dict \<open>narrator_data\<close> built for every entry (lines 96 to 107).\<close>

record narrator_data =
  n_narrator_id :: ustr
  n_full_name :: ustr
  n_taadil :: "ustr list"
  n_jarh :: "ustr list"
  n_teachers :: "ustr list"
  n_students :: "ustr list"
  n_volume :: int
  n_page :: int

definition taadil_keywords :: "ustr list" where
  "taadil_keywords =
    [[1579, 1602, 1577],
     [1589, 1583, 1608, 1602],
     [1581, 1575, 1601, 1592],
     [1605, 1578, 1602, 1606],
     [1590, 1575, 1576, 1591],
     [1593, 1583, 1604],
     [1605, 1571, 1605, 1608, 1606],
     [1604, 1575, 32, 1576, 1571, 1587, 32, 1576, 1607],
     [1589, 1575, 1604, 1581, 32, 1575, 1604, 1581, 1583, 1610, 1579],
     [1610, 1603, 1578, 1576, 32, 1581, 1583, 1610, 1579, 1607],
     [1581, 1580, 1577],
     [1573, 1605, 1575, 1605],
     [1579, 1576, 1578],
     [1593, 1575, 1576, 1583],
     [1601, 1575, 1590, 1604],
     [1589, 1575, 1604, 1581],
     [1605, 1602, 1576, 1608, 1604],
     [1585, 1580, 1604, 32, 1589, 1575, 1604, 1581],
     [1604, 1575, 32, 1576, 1571, 1587],
     [1605, 1575, 32, 1576, 1575, 1604, 32, 1576, 1607],
     [1605, 1581, 1604, 1607, 32, 1575, 1604, 1589, 1583, 1602],
     [1589, 1583, 1602]]"

definition jarh_keywords :: "ustr list" where
  "jarh_keywords =
    [[1590, 1593, 1610, 1601],
     [1605, 1578, 1585, 1608, 1603],
     [1603, 1584, 1575, 1576],
     [1608, 1590, 1575, 1593],
     [1605, 1606, 1603, 1585, 32, 1575, 1604, 1581, 1583, 1610, 1579],
     [1608, 1575, 1607],
     [1604, 1610, 1587, 32, 1576, 1588, 1610, 1569],
     [1604, 1575, 32, 1610, 1581, 1578, 1580, 32, 1576, 1607],
     [1605, 1580, 1607, 1608, 1604],
     [1590, 1593, 1601, 1607],
     [1578, 1585, 1603, 1607],
     [1604, 1610, 1587, 32, 1576, 1575, 1604, 1602, 1608, 1610],
     [1601, 1610, 1607, 32, 1590, 1593, 1601],
     [1605, 1606, 1603, 1585],
     [1604, 1575, 32, 1610, 1593, 1585, 1601],
     [1605, 1580, 1585, 1608, 1581],
     [1604, 1610, 1587, 32, 1576, 1579, 1602, 1577],
     [1590, 1593, 1610, 1601, 32, 1575, 1604, 1581, 1583, 1610, 1579]]"

definition convert_arabic_numerals :: "ustr \<Rightarrow> ustr" where
  "convert_arabic_numerals s =
     map (\<lambda>c. if 1632 \<le> c \<and> c \<le> 1641 then c - 1632 + 48 else c) s"

subsection \<open>Name extraction\<close>

text \<open>Lines 119 and 122 (and again in the cleaning of teachers and students).\<close>

definition ne_bracket_pattern :: rx where
  "ne_bracket_pattern = cat [Lit [91], star_lazy (NotIn [Rng 10 10]), Lit [93]]"

definition ne_footnote_pattern :: rx where
  "ne_footnote_pattern = cat [Lit [40], plus (In [Rng 1632 1641, Rng 48 57]), Lit [41]]"

definition stop_patterns :: "rx list" where
  "stop_patterns =
    [cat [sp, Lit [1585, 1608, 1578], plus sp, Lit [1593, 1606]],
     cat [sp, Lit [1585, 1608, 1609], plus sp, Lit [1593, 1606]],
     cat [sp, Lit [1610, 1585, 1608, 1609], plus sp, Lit [1593, 1606]],
     cat [sp, Lit [1581, 1583, 1579]],
     cat [sp, Lit [1602, 1575, 1604]],
     cat [sp, Lit [1587, 1605, 1593, 1578]],
     cat [sp, Lit [1606, 1575], sp],
     cat [sp, Lit [1575, 1587, 1605, 1607, 1575], sp],
     cat [sp, Lit [1575, 1587, 1605, 1607], sp],
     cat [sp, Lit [1605, 1606], plus sp, Lit [1575, 1589, 1581, 1575, 1576]],
     cat [sp, Lit [1604, 1607], plus sp, Lit [1589, 1581, 1576, 1577]],
     cat [sp, Lit [1605, 1583, 1610, 1606, 1609]],
     cat [sp, Lit [1576, 1603, 1585, 1610]],
     cat [sp, Lit [1582, 1586, 1575, 1593, 1610, 1577]],
     cat [sp, Lit [1575, 1606, 1589, 1575, 1585, 1610, 1577]],
     cat [sp, Lit [1575, 1605, 1585, 1571, 1577]]]"

text \<open>The text of an entry without its number marker, brackets and footnote markers.\<close>

definition name_text :: "ustr \<Rightarrow> ustr" where
  "name_text s =
     re_sub_empty ne_footnote_pattern
       (re_sub_empty ne_bracket_pattern (re_sub_empty marker_pattern s))"

text \<open>The loop of lines 144 to 148 over the stop patterns, from \<open>min_pos = len(text)\<close>.\<close>

definition min_stop :: "rx list \<Rightarrow> ustr \<Rightarrow> nat" where
  "min_stop ps s =
     foldl (\<lambda>min_pos p.
              case re_search p s of
                None \<Rightarrow> min_pos
              | Some m \<Rightarrow> if m_start m < min_pos then m_start m else min_pos)
       (length s) ps"

text \<open>The characters of \<open>rstrip(',\<dots>')\<close> in line 156: comma, Arabic comma, semicolon,
  Arabic semicolon, colon and full stop.\<close>

definition name_punctuation :: ustr where
  "name_punctuation = [44, 1548, 59, 1563, 58, 46]"

definition ne_extract_name :: "ustr \<Rightarrow> ustr" where
  "ne_extract_name entry =
     (let s = name_text entry;
          min_pos = min_stop stop_patterns s;
          name = (if min_pos < length s then py_strip (take min_pos s)
                  else py_join [32] (take 5 (py_split s)));
          name' = py_rstrip_chars name_punctuation (py_strip name);
          ws = py_split name'
      in if 6 < length ws then py_join [32] (take 6 ws) else name')"

subsection \<open>Keywords\<close>

text \<open>\<open>list(dict.fromkeys(xs))\<close>: the first occurrence of every element, in order.\<close>

fun fromkeys :: "'a list \<Rightarrow> 'a list \<Rightarrow> 'a list" where
  "fromkeys seen [] = seen"
| "fromkeys seen (x # xs) = (if x \<in> set seen then fromkeys seen xs else fromkeys (seen @ [x]) xs)"

definition ne_extract_keywords :: "ustr \<Rightarrow> ustr list \<Rightarrow> ustr list" where
  "ne_extract_keywords s keywords =
     (let found_keywords = foldl (\<lambda>found k. if py_in k s then found @ [k] else found) [] keywords
      in fromkeys [] found_keywords)"

subsection \<open>Teachers and students\<close>

text \<open>What may follow the captured names (the lookahead of lines 182 to 185).\<close>

definition teacher_boundary :: rx where
  "teacher_boundary =
     Ahead (Alt (In [Rng 1548 1548, Rng 46 46, Rng 10 10])
           (Alt (Lit [1585, 1608, 1609, 32, 1593, 1606, 1607])
           (Alt (Lit [1587, 1605, 1593, 1578])
           (Alt (Lit [1602, 1575, 1604])
           (Alt (cat [Lit [1606, 1575], sp])
                (Lit [1608]))))))"

definition student_boundary :: rx where
  "student_boundary =
     Ahead (Alt (In [Rng 1548 1548, Rng 46 46, Rng 10 10])
           (Alt (Lit [1585, 1608, 1609, 32, 1593, 1606])
           (Alt (Lit [1587, 1605, 1593, 1578])
           (Alt (Lit [1602, 1575, 1604])
           (Alt (cat [Lit [1606, 1575], sp])
                (Lit [1608]))))))"

definition captured_names :: rx where
  "captured_names = Grp 1 (plus_lazy (NotIn [Rng 1548 1548, Rng 46 46]))"

definition ne_teacher_patterns :: "rx list" where
  "ne_teacher_patterns =
    [cat [Lit [1585, 1608, 1609], plus sp, Lit [1593, 1606], plus sp,
          captured_names, teacher_boundary],
     cat [Lit [1585, 1608, 1578], plus sp, Lit [1593, 1606], plus sp,
          captured_names, teacher_boundary],
     cat [Lit [1587, 1605, 1593], plus sp, Lit [1605, 1606], plus sp,
          captured_names, teacher_boundary],
     cat [Lit [1587, 1605, 1593, 1578], plus sp, Lit [1605, 1606], plus sp,
          captured_names, teacher_boundary]]"

definition ne_student_patterns :: "rx list" where
  "ne_student_patterns =
    [cat [Lit [1585, 1608, 1609], plus sp, Lit [1593, 1606, 1607],
          opt (In [Rng 1575 1575, Rng 1569 1569]), plus sp, captured_names, student_boundary],
     cat [Lit [1585, 1608, 1578], plus sp, Lit [1593, 1606, 1607],
          opt (In [Rng 1575 1575, Rng 1569 1569]), plus sp, captured_names, student_boundary],
     cat [Lit [1581, 1583, 1579], plus sp, Lit [1593, 1606, 1607],
          opt (In [Rng 1575 1575, Rng 1569 1569]), plus sp, captured_names, student_boundary]]"

text \<open>Lines 192 and 230: the conjunction between blanks.\<close>

definition conjunction_pattern :: rx where
  "conjunction_pattern = cat [plus sp, Lit [1608], plus sp]"

text \<open>Lines 195 to 203: the cleaning of a teacher candidate.\<close>

definition clean_teacher :: "ustr \<Rightarrow> ustr" where
  "clean_teacher name =
     (let t = py_strip name;
          t = re_sub_empty ne_bracket_pattern t;
          t = re_sub_empty ne_footnote_pattern t;
          t = py_strip t
      in if py_startswith t [1593, 1606, 32] then py_strip (drop 3 t) else t)"

text \<open>Lines 233 to 243: the cleaning of a student candidate.\<close>

definition clean_student :: "ustr \<Rightarrow> ustr" where
  "clean_student name =
     (let t = py_strip name;
          t = re_sub_empty ne_bracket_pattern t;
          t = re_sub_empty ne_footnote_pattern t;
          t = py_strip t;
          t = (if py_startswith t [1593, 1606, 1607, 32] then py_strip (drop 4 t) else t)
      in if py_startswith t [1593, 1606, 1607, 1575, 32] then py_strip (drop 5 t) else t)"

text \<open>The test of lines 206 to 210 (and 246 to 250) but for the membership in the list.\<close>

definition is_name :: "ustr \<Rightarrow> bool" where
  "is_name t = (2 < length t \<and> \<not> py_in [1576, 1610, 1575, 1590] t
     \<and> \<not> py_in [1575, 1581, 1575, 1583, 1610, 1579] t \<and> \<not> py_in [1581, 1583, 1610, 1579] t)"

definition add_name :: "(ustr \<Rightarrow> ustr) \<Rightarrow> ustr list \<Rightarrow> ustr \<Rightarrow> ustr list" where
  "add_name clean acc name =
     (let t = clean name in if is_name t \<and> t \<notin> set acc then acc @ [t] else acc)"

text \<open>The three nested loops: patterns, their matches, the names of a match.\<close>

definition collect_names :: "(ustr \<Rightarrow> ustr) \<Rightarrow> rx list \<Rightarrow> ustr \<Rightarrow> ustr list" where
  "collect_names clean patterns s =
     foldl (\<lambda>acc p.
        foldl (\<lambda>acc' mt. foldl (add_name clean) acc' (re_split conjunction_pattern mt))
          acc (re_findall p s))
       [] patterns"

definition ne_extract_teachers :: "ustr \<Rightarrow> ustr list" where
  "ne_extract_teachers s = collect_names clean_teacher ne_teacher_patterns s"

definition ne_extract_students :: "ustr \<Rightarrow> ustr list" where
  "ne_extract_students s = collect_names clean_student ne_student_patterns s"

subsection \<open>The entries of a page and the driver\<close>

definition entry_pattern :: rx where
  "entry_pattern = cat [Grp 1 (plus dg), star sp, Lit [45], star sp, Grp 2 (plus (NotIn [Rng 10 10]))]"

text \<open>The truth value of a value, and \<open>int(v)\<close> of a value that is true.\<close>

definition truthy :: "pyval \<Rightarrow> bool" where
  "truthy v = (case v of PNone \<Rightarrow> False | PInt n \<Rightarrow> n \<noteq> 0 | PStr s \<Rightarrow> s \<noteq> [])"

definition int_or_zero :: "pyval \<Rightarrow> error + int" where
  "int_or_zero v =
     (if truthy v
      then (case v of
              PInt n \<Rightarrow> Inr n
            | PStr s \<Rightarrow> (case py_int s of None \<Rightarrow> Inl ValueError | Some n \<Rightarrow> Inr n)
            | PNone \<Rightarrow> Inr 0)
      else Inr 0)"

text \<open>
  The body of the loop of lines 70 to 109 for the match \<open>m\<close> whose block ends at
  \<open>end_pos\<close>.
\<close>

definition narrator_of :: "ustr \<Rightarrow> ustr \<Rightarrow> pyval \<Rightarrow> pyval \<Rightarrow> rmatch \<Rightarrow> nat
    \<Rightarrow> error + narrator_data" where
  "narrator_of s text_converted volume pg m end_pos =
     (let number = group text_converted m 1;
          start_pos = m_start m;
          full_text = slice text_converted start_pos end_pos;
          full_text_original = slice s start_pos end_pos;
          name = ne_extract_name full_text;
          ta = ne_extract_keywords full_text_original taadil_keywords;
          ja = ne_extract_keywords full_text_original jarh_keywords;
          te = ne_extract_teachers full_text_original;
          st = ne_extract_students full_text_original
      in case int_or_zero volume of
           Inl e \<Rightarrow> Inl e
         | Inr v \<Rightarrow>
             (case int_or_zero pg of
                Inl e \<Rightarrow> Inl e
              | Inr g \<Rightarrow>
                  Inr \<lparr>n_narrator_id = 78 # zfill 5 number, n_full_name = py_strip name,
                       n_taadil = ta, n_jarh = ja, n_teachers = te, n_students = st,
                       n_volume = v, n_page = g\<rparr>))"

text \<open>The loop over the matches: a block ends where the next match starts.\<close>

fun narrators_of :: "ustr \<Rightarrow> ustr \<Rightarrow> pyval \<Rightarrow> pyval \<Rightarrow> rmatch list
    \<Rightarrow> error + narrator_data list" where
  "narrators_of s text_converted volume pg [] = Inr []"
| "narrators_of s text_converted volume pg (m # rest) =
     (let end_pos = (case rest of [] \<Rightarrow> length text_converted | m' # ms' \<Rightarrow> m_start m')
      in case narrator_of s text_converted volume pg m end_pos of
           Inl e \<Rightarrow> Inl e
         | Inr n \<Rightarrow>
             (case narrators_of s text_converted volume pg rest of
                Inl e \<Rightarrow> Inl e
              | Inr ns \<Rightarrow> Inr (n # ns)))"

definition ne_extract_narrator_entries :: "ustr \<Rightarrow> pyval \<Rightarrow> pyval \<Rightarrow> error + narrator_data list"
  where
  "ne_extract_narrator_entries s volume pg =
     (let text_converted = convert_arabic_numerals s
      in narrators_of s text_converted volume pg (re_finditer entry_pattern text_converted))"

text \<open>
  The parsed input file: a list whose elements are lists of items, page dicts or
  something else; an item of an inner list is a page dict or something else.
\<close>

datatype item = PageDict page | OtherItem

datatype element = PageList "item list" | Page page | OtherElement

definition narrators_of_page :: "page \<Rightarrow> error + narrator_data list" where
  "narrators_of_page p =
     ne_extract_narrator_entries (get (p_text p) []) (get (p_vol p) (PStr []))
       (get (p_page p) (PStr []))"

fun narrators_of_items :: "narrator_data list \<Rightarrow> item list \<Rightarrow> error + narrator_data list" where
  "narrators_of_items narrators [] = Inr narrators"
| "narrators_of_items narrators (OtherItem # items) = narrators_of_items narrators items"
| "narrators_of_items narrators (PageDict p # items) =
     (case narrators_of_page p of
        Inl e \<Rightarrow> Inl e
      | Inr ns \<Rightarrow> narrators_of_items (narrators @ ns) items)"

text \<open>\<open>extract_narrators\<close> from the parsed content of the file on.\<close>

fun ne_extract_narrators :: "narrator_data list \<Rightarrow> element list \<Rightarrow> error + narrator_data list"
  where
  "ne_extract_narrators narrators [] = Inr narrators"
| "ne_extract_narrators narrators (OtherElement # es) = ne_extract_narrators narrators es"
| "ne_extract_narrators narrators (Page p # es) =
     (case narrators_of_page p of
        Inl e \<Rightarrow> Inl e
      | Inr ns \<Rightarrow> ne_extract_narrators (narrators @ ns) es)"
| "ne_extract_narrators narrators (PageList items # es) =
     (case narrators_of_items narrators items of
        Inl e \<Rightarrow> Inl e
      | Inr narrators' \<Rightarrow> ne_extract_narrators narrators' es)"

section \<open>Notions used in the statements\<close>

text \<open>The items of a lexicon whose term occurs in a text.\<close>

definition hits :: "(ustr \<times> ustr) list \<Rightarrow> ustr \<Rightarrow> (ustr \<times> ustr) list" where
  "hits terms s = filter (\<lambda>(a, en). py_in a s) terms"

text \<open>The evaluator and the phrase of a match of the evaluator pattern (lines 143, 144).\<close>

definition evaluator_of :: "ustr \<Rightarrow> rmatch \<Rightarrow> ustr" where
  "evaluator_of s m = py_strip (group s m 1)"

definition phrase_of :: "ustr \<Rightarrow> rmatch \<Rightarrow> ustr" where
  "phrase_of s m = py_strip (group s m 2)"

text \<open>
  The iterations of a repetition over the ways its body matched, as a recursion on
  that list; \<open>ms_Rep\<close> below states the repetition through it.
\<close>

fun cont :: "rx \<Rightarrow> nat \<Rightarrow> mstate list \<Rightarrow> mstate list" where
  "cont r n [] = []"
| "cont r n ((j, s', c') # rest) =
     (if length s' < n then ms r (j, s', c') else []) @ cont r n rest"

text \<open>The identifier expected for the \<open>i\<close>-th record: \<open>N\<close> and \<open>i\<close> in at least five digits.\<close>

definition id_of :: "nat \<Rightarrow> ustr" where
  "id_of i = 78 # zfill 5 (digits_of i)"

text \<open>The records so far are numbered 1, 2, \<dots> and the counter is one past their number.\<close>

definition numbered :: "extractor \<Rightarrow> bool" where
  "numbered ex = (map narrator_id (records ex) = map id_of [1..<Suc (length (records ex))]
     \<and> counter ex = 1 + int (length (records ex)))"

text \<open>The number a string of ASCII digits denotes.\<close>

definition dec_val :: "ustr \<Rightarrow> nat" where
  "dec_val ds = foldl (\<lambda>a d. 10 * a + (d - 48)) 0 ds"

text \<open>An entry and a page used in the examples: \<open>1 - \<close> and a name of three words.\<close>

definition example_entry :: ustr where
  "example_entry = [49, 32, 45, 32, 1575, 32, 1576, 1606, 32, 1576]"

definition example_page :: "pyval \<Rightarrow> page" where
  "example_page v = \<lparr>p_vol = Some v, p_text = Some example_entry, p_page = Some (PInt 10)\<rparr>"

text \<open>
  Two records that agree but for the order of their teachers and of their students, which
  hold the same names, each once; and two extractors whose records agree so.
\<close>

definition same_but_order :: "JarhTadilRecord \<Rightarrow> JarhTadilRecord \<Rightarrow> bool" where
  "same_but_order r r' =
     (narrator_id r = narrator_id r' \<and> full_name r = full_name r' \<and> taadil r = taadil r'
      \<and> jarh r = jarh r' \<and> unclassified r = unclassified r'
      \<and> source_volume r = source_volume r' \<and> source_page r = source_page r'
      \<and> set (teachers r) = set (teachers r') \<and> distinct (teachers r) \<and> distinct (teachers r')
      \<and> set (students r) = set (students r') \<and> distinct (students r) \<and> distinct (students r'))"

definition same_run :: "extractor \<Rightarrow> extractor \<Rightarrow> bool" where
  "same_run ex ex' =
     (list_all2 same_but_order (records ex) (records ex') \<and> counter ex = counter ex')"

text \<open>
  An entry that names two teachers (\<open>1 - \<close>, a name, \<open>narrated from\<close> and two names
  with a comma between them), and a page of volume 2 that holds it.
\<close>

definition two_teachers :: ustr where
  "two_teachers = [49, 32, 45, 32, 1575, 32, 1576, 1606, 32, 1576, 32, 1585, 1608, 1609, 32,
     1593, 1606, 32, 1578, 32, 1576, 1606, 32, 1579, 32, 44, 32, 1580, 32, 1576, 1606, 32, 1581]"

definition two_teachers_page :: page where
  "two_teachers_page = \<lparr>p_vol = Some (PStr [1634]), p_text = Some two_teachers, p_page = Some (PInt 10)\<rparr>"

text \<open>
  The candidates of \<open>_extract_teachers\<close> and \<open>_extract_students\<close>: what the patterns capture,
  split at the conjunction, in the order in which the loops of lines 188 to 194 reach them.
\<close>

definition candidates :: "rx list \<Rightarrow> ustr \<Rightarrow> ustr list" where
  "candidates patterns s =
     concat (map (\<lambda>p. concat (map (re_split conjunction_pattern) (re_findall p s))) patterns)"

text \<open>
  Two texts: \<open>narrated from\<close>, a name of one letter, a comma and a name whose first word is
  \<open>hadith\<close>; and \<open>narrated from Zayd.\<close>
\<close>

definition short_and_hadith :: ustr where
  "short_and_hadith = [1585, 1608, 1609, 32, 1593, 1606, 32, 1575, 44, 1581, 1583, 1610, 1579,
     32, 1576, 1606, 32, 1576]"

definition narrated_from_zayd :: ustr where
  "narrated_from_zayd = [1585, 1608, 1609, 32, 1593, 1606, 32, 1586, 1610, 1583, 46]"

text \<open>
  Line 156: a name without the blanks around it and the punctuation at its end; lines 159
  to 161: a name cut to its first six words.
\<close>

definition trimmed :: "ustr \<Rightarrow> ustr" where
  "trimmed n = py_rstrip_chars name_punctuation (py_strip n)"

definition capped :: "ustr \<Rightarrow> ustr" where
  "capped n = (if 6 < length (py_split n) then py_join [32] (take 6 (py_split n)) else n)"

text \<open>
  Two entries: \<open>1 - Zayd said: trustworthy\<close>, and \<open>1 - \<close> with a name of four links, seven
  words in all.
\<close>

definition zayd_entry :: ustr where
  "zayd_entry = [49, 32, 45, 32, 1586, 1610, 1583, 32, 1602, 1575, 1604, 32, 1579, 1602, 1577]"

definition seven_words :: ustr where
  "seven_words = [49, 32, 45, 32, 1575, 32, 1576, 1606, 32, 1576, 32, 1576, 1606, 32, 1578, 32,
     1576, 1606, 32, 1579]"

text \<open>A word: not empty and without a blank.\<close>

definition word :: "ustr \<Rightarrow> bool" where
  "word w = (w \<noteq> [] \<and> (\<forall>c \<in> set w. \<not> isspace c))"

section \<open>Evaluation of the matcher\<close>

lemma cont_eq:
  "cont r n xs =
     concat (map (\<lambda>(j, s', c'). if length s' < n then ms r (j, s', c') else []) xs)"
  by (induction xs) auto

lemma ms_Rep:
  "ms (Rep a lo hi g) (i, s, c) =
     (let more = (if hi = Some 0 then []
                  else cont (Rep a (lo - 1) (dec_hi hi) g) (length s) (ms a (i, s, c)));
          stop = (if lo = 0 then [(i, s, c)] else [])
      in if g then more @ stop else stop @ more)"
  unfolding cont_eq by (rule ms.simps)

declare ms.simps(9) [simp del]

lemmas rx_eval = ms_Rep star_def plus_def plus_lazy_def star_lazy_def opt_def in_class_def
  isspace_def match_at_def re_finditer_def re_search_def re_match_def re_sub_empty_def
  re_split_def re_findall_def group_def slice_def m_start_def py_strip_def

section \<open>The judgement classifier\<close>

lemma classify_eq:
  "classify terms phrase ev (out, c) =
     (out @ map (\<lambda>(a, en). judgement en phrase (PStr ev)) (hits terms phrase),
      c \<or> hits terms phrase \<noteq> [])"
  unfolding classify_def hits_def
  by (induction terms arbitrary: out c) (auto split: prod.splits)

lemma standalone_eq:
  "standalone terms s out = out @ map (\<lambda>(a, en). judgement en a PNone) (hits terms s)"
  unfolding standalone_def hits_def
  by (induction terms arbitrary: out) (auto split: prod.splits)

lemma attributed_eq:
  "attributed s (ta, ja, un) m =
     (ta @ map (\<lambda>(a, en). judgement en (phrase_of s m) (PStr (evaluator_of s m)))
             (hits taadil_terms (phrase_of s m)),
      ja @ map (\<lambda>(a, en). judgement en (phrase_of s m) (PStr (evaluator_of s m)))
             (hits jarh_terms (phrase_of s m)),
      un @ (if hits taadil_terms (phrase_of s m) = [] \<and> hits jarh_terms (phrase_of s m) = []
            then [[(''exact_text'', PStr (phrase_of s m)),
                   (''evaluated_by'', PStr (evaluator_of s m))]]
            else []))"
  by (simp add: attributed_def classify_eq evaluator_of_def phrase_of_def Let_def)

lemma taadil_terms_eval:
  "taadil_terms =
    [([1579, 1602, 1577, 32, 1579, 1602, 1577], u ''Thiqa Thiqa''),
     ([1579, 1602, 1577, 32, 1579, 1576, 1578], u ''Thiqa Thabt''),
     ([1579, 1602, 1577, 32, 1581, 1575, 1601, 1592], u ''Thiqa Hafiz''),
     ([1573, 1605, 1575, 1605, 32, 1581, 1575, 1601, 1592], u ''Imam Hafiz''),
     ([1581, 1580, 1577], u ''Hujjah''),
     ([1579, 1602, 1577], u ''Thiqa''),
     ([1579, 1576, 1578], u ''Thabt''),
     ([1589, 1583, 1608, 1602], u ''Saduq''),
     ([1604, 1575, 32, 1576, 1571, 1587, 32, 1576, 1607],
        [76, 97, 32, 98, 97, 39, 115, 32, 98, 105, 104, 105]),
     ([1605, 1581, 1604, 1607, 32, 1575, 1604, 1589, 1583, 1602], u ''Truthful''),
     ([1589, 1575, 1604, 1581, 32, 1575, 1604, 1581, 1583, 1610, 1579], u ''Salih al-hadith''),
     ([1610, 1603, 1578, 1576, 32, 1581, 1583, 1610, 1579, 1607], u ''His hadith is written''),
     ([1589, 1583, 1608, 1602, 32, 1610, 1607, 1605], u ''Saduq (but makes mistakes)''),
     ([1589, 1575, 1604, 1581], u ''Salih''),
     ([1588, 1610, 1582], u ''Shaykh''),
     ([1608, 1587, 1591], u ''Average'')]"
  unfolding taadil_terms_def dict_display_def by simp

lemma jarh_terms_eval:
  "jarh_terms =
    [([1608, 1587, 1591], u ''Average''),
     ([1590, 1593, 1610, 1601], u ''Daif''),
     ([1604, 1610, 1606, 32, 1575, 1604, 1581, 1583, 1610, 1579], u ''Layyin al-Hadith''),
     ([1604, 1610, 1587, 32, 1576, 1575, 1604, 1602, 1608, 1610], u ''Not strong''),
     ([1610, 1607, 1605], u ''Makes mistakes''),
     ([1605, 1606, 1603, 1585, 32, 1575, 1604, 1581, 1583, 1610, 1579], u ''Munkar al-Hadith''),
     ([1587, 1610, 1574, 32, 1575, 1604, 1581, 1601, 1592], u ''Poor memory''),
     ([1605, 1578, 1585, 1608, 1603], u ''Matruk''),
     ([1605, 1578, 1585, 1608, 1603, 32, 1575, 1604, 1581, 1583, 1610, 1579],
        u ''Matruk al-Hadith''),
     ([1603, 1584, 1575, 1576], u ''Kadhdhab''),
     ([1608, 1590, 1575, 1593], u ''Fabricator''),
     ([1587, 1575, 1602, 1591], u ''Saqit''),
     ([1601, 1610, 1607, 32, 1604, 1610, 1606], u ''Layyin'')]"
  unfolding jarh_terms_def dict_display_def by simp

lemma attributed_fold:
  "foldl (attributed s) (ta, ja, un) ms' =
     (ta @ concat (map (\<lambda>m. map (\<lambda>(a, en). judgement en (phrase_of s m) (PStr (evaluator_of s m)))
             (hits taadil_terms (phrase_of s m))) ms'),
      ja @ concat (map (\<lambda>m. map (\<lambda>(a, en). judgement en (phrase_of s m) (PStr (evaluator_of s m)))
             (hits jarh_terms (phrase_of s m))) ms'),
      un @ concat (map (\<lambda>m. if hits taadil_terms (phrase_of s m) = [] \<and> hits jarh_terms (phrase_of s m) = []
            then [[(''exact_text'', PStr (phrase_of s m)),
                   (''evaluated_by'', PStr (evaluator_of s m))]]
            else []) ms'))"
  by (induction ms' arbitrary: ta ja un) (simp_all add: attributed_eq)

lemma lexicon_keys_distinct: "distinct (map fst taadil_terms)" "distinct (map fst jarh_terms)"
  by (simp_all add: taadil_terms_eval jarh_terms_eval)

text \<open>
  C3.  \<open>extract_judgements\<close> runs over every match of the evaluator pattern in the
  entry, in order.  For a match with evaluator \<open>e\<close> and phrase \<open>p\<close> it puts into
  \<open>taadil\<close> one judgement (label, \<open>p\<close>, \<open>e\<close>) for every item of the approval lexicon
  whose term occurs in \<open>p\<close>, and into \<open>jarh\<close> one for every such item of the criticism
  lexicon, none skipped after a first hit, so one phrase can add to both lists; it puts
  one entry into \<open>unclassified\<close> exactly when no term of either lexicon occurs in
  \<open>p\<close>.  The standalone judgements follow those of all matches.  No term is listed
  twice in a lexicon.
\<close>

theorem classifier_emits_every_contained_term:
  "extract_judgements s =
     (concat (map (\<lambda>m. map (\<lambda>(a, en). [(''statement'', PStr en),
                 (''exact_text'', PStr (phrase_of s m)),
                 (''evaluated_by'', PStr (evaluator_of s m))])
               (hits taadil_terms (phrase_of s m)))
          (re_finditer evaluator_pattern s))
        @ map (\<lambda>(a, en). judgement en a PNone) (hits taadil_terms s),
      concat (map (\<lambda>m. map (\<lambda>(a, en). [(''statement'', PStr en),
                 (''exact_text'', PStr (phrase_of s m)),
                 (''evaluated_by'', PStr (evaluator_of s m))])
               (hits jarh_terms (phrase_of s m)))
          (re_finditer evaluator_pattern s))
        @ map (\<lambda>(a, en). judgement en a PNone) (hits jarh_terms s),
      concat (map (\<lambda>m. if hits taadil_terms (phrase_of s m) = []
                           \<and> hits jarh_terms (phrase_of s m) = []
                        then [[(''exact_text'', PStr (phrase_of s m)),
                               (''evaluated_by'', PStr (evaluator_of s m))]]
                        else [])
          (re_finditer evaluator_pattern s)))
   \<and> distinct (map fst taadil_terms) \<and> distinct (map fst jarh_terms)"
  by (simp add: extract_judgements_def attributed_fold standalone_eq lexicon_keys_distinct
      judgement_def)

lemma finditer_two_phrases:
  "re_finditer evaluator_pattern
     [1602, 1575, 1604, 32, 1575, 58, 32, 1608, 1587, 1591, 10,
      1602, 1575, 1604, 32, 1576, 58, 32, 97, 98]
     = [(0, 10, [(2, 7, 10), (1, 4, 5)]), (11, 20, [(2, 18, 20), (1, 15, 16)])]"
  by (simp add: evaluator_pattern_def rx_eval)

text \<open>
  An entry with two attributed phrases: the first has a term that is in both lexicons,
  the second has no term.
\<close>

theorem classifier_emits_every_contained_term_witness:
  "extract_judgements
     [1602, 1575, 1604, 32, 1575, 58, 32, 1608, 1587, 1591, 10,
      1602, 1575, 1604, 32, 1576, 58, 32, 97, 98] =
     ([[(''statement'', PStr (u ''Average'')), (''exact_text'', PStr [1608, 1587, 1591]),
        (''evaluated_by'', PStr [1575])],
       [(''statement'', PStr (u ''Average'')), (''exact_text'', PStr [1608, 1587, 1591]),
        (''evaluated_by'', PNone)]],
      [[(''statement'', PStr (u ''Average'')), (''exact_text'', PStr [1608, 1587, 1591]),
        (''evaluated_by'', PStr [1575])],
       [(''statement'', PStr (u ''Average'')), (''exact_text'', PStr [1608, 1587, 1591]),
        (''evaluated_by'', PNone)]],
      [[(''exact_text'', PStr [97, 98]), (''evaluated_by'', PStr [1576])]])"
  using classifier_emits_every_contained_term
    [of "[1602, 1575, 1604, 32, 1575, 58, 32, 1608, 1587, 1591, 10,
          1602, 1575, 1604, 32, 1576, 58, 32, 97, 98]"]
  by (simp add: finditer_two_phrases phrase_of_def evaluator_of_def group_def slice_def
      py_strip_def isspace_def hits_def taadil_terms_eval jarh_terms_eval judgement_def)

lemma found_fold:
  "foldl (\<lambda>found k. if P k then found @ [k] else found) acc ks = acc @ filter P ks"
  by (induction ks arbitrary: acc) auto

lemma fromkeys_distinct:
  "distinct (seen @ xs) \<Longrightarrow> fromkeys seen xs = seen @ xs"
  by (induction xs arbitrary: seen) auto

lemma keywords_distinct: "distinct taadil_keywords" "distinct jarh_keywords"
  unfolding taadil_keywords_def jarh_keywords_def by simp_all

lemma ne_extract_keywords_eq:
  "distinct ks \<Longrightarrow> ne_extract_keywords s ks = filter (\<lambda>k. py_in k s) ks"
  unfolding ne_extract_keywords_def Let_def found_fold
  by (simp add: fromkeys_distinct)

text \<open>
  C4.  Whatever the attributed loop produced, \<open>extract_judgements\<close> then appends to
  \<open>taadil\<close> (and to \<open>jarh\<close>) one judgement with \<open>evaluated_by\<close> \<open>None\<close> for every
  item of the lexicon whose term occurs anywhere in the entry text; nothing already in
  the lists is removed, so a term found both ways stays twice.  In \<open>NarratorExtractor\<close>
  every keyword that occurs in the text is returned once, in the order of the list.
\<close>

theorem standalone_scan_keeps_duplicates:
  "extract_judgements s =
     (case foldl (attributed s) ([], [], []) (re_finditer evaluator_pattern s) of
        (ta, ja, un) \<Rightarrow>
          (ta @ map (\<lambda>(a, en). judgement en a PNone) (hits taadil_terms s),
           ja @ map (\<lambda>(a, en). judgement en a PNone) (hits jarh_terms s), un))
   \<and> ne_extract_keywords s taadil_keywords = filter (\<lambda>k. py_in k s) taadil_keywords
   \<and> ne_extract_keywords s jarh_keywords = filter (\<lambda>k. py_in k s) jarh_keywords"
  by (simp add: extract_judgements_def standalone_eq ne_extract_keywords_eq keywords_distinct
      split: prod.splits)

lemma finditer_example:
  "re_finditer evaluator_pattern [1602, 1575, 1604, 32, 1575, 58, 32, 1608, 1587, 1591]
     = [(0, 10, [(2, 7, 10), (1, 4, 5)])]"
  by (simp add: evaluator_pattern_def rx_eval)

text \<open>An entry in which one term is reported under the evaluator and again standalone.\<close>

theorem standalone_scan_keeps_duplicates_witness:
  "extract_judgements [1602, 1575, 1604, 32, 1575, 58, 32, 1608, 1587, 1591] =
     ([judgement (u ''Average'') [1608, 1587, 1591] (PStr [1575]),
       judgement (u ''Average'') [1608, 1587, 1591] PNone],
      [judgement (u ''Average'') [1608, 1587, 1591] (PStr [1575]),
       judgement (u ''Average'') [1608, 1587, 1591] PNone], [])"
  using standalone_scan_keeps_duplicates
    [of "[1602, 1575, 1604, 32, 1575, 58, 32, 1608, 1587, 1591]"]
  by (simp add: finditer_example attributed_eq phrase_of_def evaluator_of_def group_def
      slice_def py_strip_def isspace_def hits_def taadil_terms_eval jarh_terms_eval)

text \<open>
  C10.  The \<open>unclassified\<close> list of \<open>extract_judgements\<close> holds, in the order of the
  matches of the evaluator pattern, one entry for every match whose phrase has no term
  of either lexicon, and nothing else: the standalone scan adds nothing to it.  Every
  entry has the key \<open>evaluated_by\<close> with a string value.
\<close>

theorem unclassified_only_from_attributed:
  "snd (snd (extract_judgements s)) =
     concat (map (\<lambda>m. if hits taadil_terms (phrase_of s m) = [] \<and> hits jarh_terms (phrase_of s m) = []
            then [[(''exact_text'', PStr (phrase_of s m)),
                   (''evaluated_by'', PStr (evaluator_of s m))]]
            else []) (re_finditer evaluator_pattern s))
   \<and> list_all (\<lambda>d. \<exists>e. map_of d ''evaluated_by'' = Some (PStr e))
        (snd (snd (extract_judgements s)))"
  by (simp add: extract_judgements_def attributed_fold list_all_iff)

lemma finditer_example2:
  "re_finditer evaluator_pattern [1602, 1575, 1604, 32, 1575, 58, 32, 97, 98]
     = [(0, 9, [(2, 7, 9), (1, 4, 5)])]"
  by (simp add: evaluator_pattern_def rx_eval)

text \<open>An attributed phrase without a lexicon term.\<close>

theorem unclassified_only_from_attributed_witness:
  "snd (snd (extract_judgements [1602, 1575, 1604, 32, 1575, 58, 32, 97, 98])) =
     [[(''exact_text'', PStr [97, 98]), (''evaluated_by'', PStr [1575])]]"
  using unclassified_only_from_attributed [of "[1602, 1575, 1604, 32, 1575, 58, 32, 97, 98]"]
  by (simp add: finditer_example2 phrase_of_def evaluator_of_def group_def
      slice_def py_strip_def isspace_def hits_def taadil_terms_eval jarh_terms_eval)

section \<open>The noise stripper\<close>


text \<open>
  C8 (as amended).  A text in which neither pattern of the noise stripper has a match
  is left unchanged by it.  So a second application is a no-op whenever the first
  result has no parenthesised run of digits and no bracketed span left, and only then
  can it remove more.
\<close>

theorem remove_footnotes_without_match:
  "re_finditer footnote_pattern s = [] \<Longrightarrow> re_finditer bracket_pattern s = [] \<Longrightarrow>
   remove_footnotes s = s"
  by (simp add: remove_footnotes_def re_sub_empty_def)

text \<open>A text with parentheses that are not a footnote marker.\<close>

theorem remove_footnotes_without_match_witness:
  "re_finditer footnote_pattern (u ''a (b) c'') = []
   \<and> re_finditer bracket_pattern (u ''a (b) c'') = []
   \<and> remove_footnotes (u ''a (b) c'') = u ''a (b) c''"
proof -
  have f: "re_finditer footnote_pattern (u ''a (b) c'') = []"
    by (simp add: u_def footnote_pattern_def rx_eval)
  have b: "re_finditer bracket_pattern (u ''a (b) c'') = []"
    by (simp add: u_def bracket_pattern_def rx_eval)
  from remove_footnotes_without_match [OF f b] f b show ?thesis by simp
qed

text \<open>
  C8 as stated fails: removing the inner marker of \<open>((1)2)\<close> leaves \<open>(2)\<close>, itself a
  footnote marker, which a second application removes.
\<close>

theorem remove_footnotes_not_idempotent:
  "remove_footnotes (u ''((1)2)'') = u ''(2)''
   \<and> remove_footnotes (remove_footnotes (u ''((1)2)'')) = []
   \<and> remove_footnotes (remove_footnotes (u ''((1)2)'')) \<noteq> remove_footnotes (u ''((1)2)'')"
  by (simp add: u_def remove_footnotes_def footnote_pattern_def bracket_pattern_def rx_eval)

section \<open>The record builder of \<open>JarhWaTadilExtractor\<close>\<close>

lemma dec_val_digits_of: "dec_val (digits_of n) = n"
proof (induction n rule: digits_of.induct)
  case (1 n)
  show ?case
  proof (cases "n < 10")
    case True
    then show ?thesis by (subst digits_of.simps) (simp add: dec_val_def)
  next
    case False
    with 1 have "dec_val (digits_of (n div 10)) = n div 10" by simp
    with False show ?thesis
      by (subst digits_of.simps) (simp add: dec_val_def)
  qed
qed

lemma foldl_zeros: "foldl (\<lambda>a d. 10 * a + (d - 48)) (0::nat) (replicate k 48) = 0"
  by (induction k) auto

lemma dec_val_zeros: "dec_val (replicate k 48 @ ds) = dec_val ds"
  by (simp add: dec_val_def foldl_zeros)

lemma digits_of_hd: "\<exists>c r. digits_of n = c # r \<and> 48 \<le> c \<and> c \<le> 57"
proof (induction n rule: digits_of.induct)
  case (1 n)
  show ?case
  proof (cases "n < 10")
    case True
    then show ?thesis by (subst digits_of.simps) simp
  next
    case False
    with 1 obtain c r where "digits_of (n div 10) = c # r" "48 \<le> c" "c \<le> 57" by auto
    with False show ?thesis by (subst digits_of.simps) simp
  qed
qed

lemma zfill_digits: "zfill w (digits_of n) = replicate (w - length (digits_of n)) 48 @ digits_of n"
proof -
  obtain c r where "digits_of n = c # r" "48 \<le> c" "c \<le> 57" using digits_of_hd by blast
  then show ?thesis by (simp add: zfill_def)
qed

lemma dec_val_id: "dec_val (tl (id_of n)) = n"
  by (simp add: id_of_def zfill_digits dec_val_zeros dec_val_digits_of)

lemma inj_id_of: "inj id_of"
  by (rule inj_on_inverseI [where g = "\<lambda>s. dec_val (tl s)"]) (rule dec_val_id)

lemma distinct_ids: "distinct (map id_of [1..<n])"
  by (simp add: distinct_map inj_id_of inj_on_subset [OF inj_id_of])

lemma fmt_05d_pos: "fmt_05d (1 + int n) = Inr num \<Longrightarrow> 78 # num = id_of (Suc n)"
  by (auto simp: fmt_05d_def str_int_def id_of_def Let_def nat_add_distrib split: sum.splits if_splits)

lemma process_entry_Inr:
  "process_entry order ex e pg v = Inr (ro, ex') \<Longrightarrow>
     (ro = None \<and> ex' = ex) \<or>
     (\<exists>r num. ro = Some r \<and> fmt_05d (counter ex) = Inr num \<and> narrator_id r = 78 # num
        \<and> full_name r \<noteq> [] \<and> ex' = ex\<lparr>counter := counter ex + 1\<rparr>)"
  by (auto simp: process_entry_def split: option.splits if_splits prod.splits sum.splits)

lemma numbered_step:
  assumes "numbered ex" "process_entry order ex e pg v = Inr (Some r, ex')"
  shows "numbered (ex'\<lparr>records := records ex' @ [r]\<rparr>)"
proof -
  from process_entry_Inr [OF assms(2)] obtain num where
    f: "fmt_05d (counter ex) = Inr num" and i: "narrator_id r = 78 # num"
    and e: "ex' = ex\<lparr>counter := counter ex + 1\<rparr>" by auto
  from assms(1) have c: "counter ex = 1 + int (length (records ex))" by (simp add: numbered_def)
  with f have "78 # num = id_of (Suc (length (records ex)))" by (simp add: fmt_05d_pos)
  with assms(1) i e c show ?thesis by (simp add: numbered_def)
qed

lemma process_entries_numbered:
  "numbered ex \<Longrightarrow> process_entries order ex es pg v = Inr ex' \<Longrightarrow> numbered ex'"
proof (induction es arbitrary: ex)
  case Nil
  then show ?case by simp
next
  case (Cons e es)
  from Cons.prems(2) obtain ro ex1 where p: "process_entry order ex e pg v = Inr (ro, ex1)"
    by (auto split: sum.splits)
  show ?case
  proof (cases ro)
    case None
    with p process_entry_Inr [OF p] have "ex1 = ex" by auto
    with Cons p None show ?thesis by simp
  next
    case (Some r)
    with p Cons.prems(1) have "numbered (ex1\<lparr>records := records ex1 @ [r]\<rparr>)"
      by (simp add: numbered_step)
    with Cons p Some show ?thesis by simp
  qed
qed

lemma extract_from_json_numbered:
  "numbered ex \<Longrightarrow> extract_from_json order ex pages sv = Inr ex' \<Longrightarrow> numbered ex'"
proof (induction pages arbitrary: ex)
  case Nil
  then show ?case by simp
next
  case (Cons p pages)
  then show ?case
    by (auto split: sum.splits if_splits dest: process_entries_numbered)
qed

lemma ids_sequential:
  "extract_from_json order new_extractor pages sv = Inr ex \<Longrightarrow>
     map narrator_id (records ex) = map id_of [1..<Suc (length (records ex))]
     \<and> distinct (map narrator_id (records ex))
     \<and> counter ex = 1 + int (length (records ex))"
proof -
  assume a: "extract_from_json order new_extractor pages sv = Inr ex"
  have "numbered new_extractor" by (simp add: numbered_def new_extractor_def)
  from extract_from_json_numbered [OF this a] have n: "numbered ex" .
  then show ?thesis
    using distinct_ids [of "Suc (length (records ex))"] by (simp add: numbered_def del: upt_Suc)
qed

lemmas a_eval = rx_eval isdecimal_def decimal_value_def footnote_pattern_def bracket_pattern_def
  remove_footnotes_def first_line_def name_pattern_def extract_name_def

lemma example_name: "extract_name example_entry = Some [1575, 32, 1576, 1606, 32, 1576]"
  by (simp add: example_entry_def a_eval)

lemma example_segments: "segment_entries example_entry = [example_entry]"
  by (simp add: example_entry_def segment_entries_def arabic_to_western_def boundary_pattern_def
      marker_pattern_def rx_eval isdecimal_def decimal_value_def between.simps)

lemma example_volume: "page_volume (example_page (PStr [1634])) = Inr 2"
  "page_volume (example_page (PStr [1633])) = Inr 1"
  by (simp_all add: page_volume_def example_page_def get_def py_str_def arabic_to_western_def
      py_int_def int_space_def isspace_def decimal_value_def max_str_digits_def)

lemma replicate_numeral: "replicate (numeral k) x = x # replicate (pred_numeral k) x"
  by (simp add: numeral_eq_Suc)

lemma example_fields: "p_text (example_page v) = Some example_entry"
  "p_page (example_page v) = Some (PInt 10)"
  by (simp_all add: example_page_def)

lemma fmt_1: "fmt_05d 1 = Inr (u ''00001'')"
  by (simp add: fmt_05d_def str_int_def digits_of.simps max_str_digits_def zfill_def u_def replicate_numeral)

lemma example_run:
  "extract_from_json order new_extractor [example_page (PStr [1634])] 2 =
     Inr \<lparr>records = [\<lparr>narrator_id = u ''N00001'', full_name = [1575, 32, 1576, 1606, 32, 1576],
        taadil = fst (extract_judgements example_entry),
        jarh = fst (snd (extract_judgements example_entry)),
        unclassified = snd (snd (extract_judgements example_entry)),
        teachers = fst (extract_teachers_students order example_entry),
        students = snd (extract_teachers_students order example_entry),
        source_volume = 2, source_page = PInt 10\<rparr>], counter = 2\<rparr>"
  by (simp add: example_volume example_segments example_fields get_def process_entry_def
      example_name fmt_1 new_extractor_def case_prod_unfold u_def)

lemma process_entries_named:
  "list_all (\<lambda>r. full_name r \<noteq> []) (records ex) \<Longrightarrow>
   process_entries order ex es pg v = Inr ex' \<Longrightarrow>
   list_all (\<lambda>r. full_name r \<noteq> []) (records ex')"
proof (induction es arbitrary: ex)
  case Nil
  then show ?case by simp
next
  case (Cons e es)
  from Cons.prems(2) obtain ro ex1 where p: "process_entry order ex e pg v = Inr (ro, ex1)"
    by (auto split: sum.splits)
  show ?case
  proof (cases ro)
    case None
    with process_entry_Inr [OF p] have "ex1 = ex" by auto
    with Cons p None show ?thesis by simp
  next
    case (Some r)
    with process_entry_Inr [OF p] have "full_name r \<noteq> []" "records ex1 = records ex" by auto
    with Cons.prems(1)
    have l: "list_all (\<lambda>r. full_name r \<noteq> []) (records (ex1\<lparr>records := records ex1 @ [r]\<rparr>))"
      by simp
    from Cons.prems(2) p Some
    have "process_entries order (ex1\<lparr>records := records ex1 @ [r]\<rparr>) es pg v = Inr ex'"
      by simp
    from Cons.IH [OF l this] show ?thesis .
  qed
qed

lemma extract_from_json_named:
  "list_all (\<lambda>r. full_name r \<noteq> []) (records ex) \<Longrightarrow>
   extract_from_json order ex pages sv = Inr ex' \<Longrightarrow>
   list_all (\<lambda>r. full_name r \<noteq> []) (records ex')"
proof (induction pages arbitrary: ex)
  case Nil
  then show ?case by simp
next
  case (Cons p pages)
  then show ?case
    by (auto split: sum.splits if_splits dest: process_entries_named)
qed

lemma unnamed_dropped:
  "(extract_name e = None \<or> extract_name e = Some [] \<longrightarrow>
      process_entry order ex e pg v = Inr (None, ex)
      \<and> process_entries order ex (e # es) pg v = process_entries order ex es pg v)
   \<and> (extract_from_json order new_extractor pages sv = Inr ex' \<longrightarrow>
      list_all (\<lambda>r. full_name r \<noteq> []) (records ex'))"
proof -
  have "process_entry order ex e pg v = Inr (None, ex)"
    if "extract_name e = None \<or> extract_name e = Some []"
    using that by (auto simp: process_entry_def)
  moreover have "list_all (\<lambda>r. full_name r \<noteq> []) (records ex')"
    if "extract_from_json order new_extractor pages sv = Inr ex'"
    using extract_from_json_named [OF _ that] by (simp add: new_extractor_def)
  ultimately show ?thesis by auto
qed

lemma no_marker_no_name: "extract_name (u ''x'') = None"
  by (simp add: u_def a_eval)

lemma low_volume_skipped:
  "page_volume p = Inr v \<Longrightarrow> v < sv \<Longrightarrow>
   extract_from_json order ex (ps @ p # qs) sv = extract_from_json order ex (ps @ qs) sv"
  by (induction ps arbitrary: ex) (auto split: sum.splits)

section \<open>Identifiers, names and volumes in both extractors\<close>

text \<open>What \<open>_extract_narrator_entries\<close> returns when the volume and the page convert.\<close>

lemma narrators_of_Inr:
  "int_or_zero vol = Inr v \<Longrightarrow> int_or_zero pg = Inr g \<Longrightarrow>
   \<exists>ns. narrators_of s tc vol pg ms' = Inr ns
     \<and> map n_narrator_id ns = map (\<lambda>m. 78 # zfill 5 (group tc m 1)) ms'
     \<and> map n_volume ns = map (\<lambda>m. v) ms'"
  by (induction ms') (auto simp: narrator_of_def Let_def split: sum.splits)

lemma entries_Inr:
  assumes "int_or_zero vol = Inr v" "int_or_zero pg = Inr g"
  shows "\<exists>ns. ne_extract_narrator_entries s vol pg = Inr ns
     \<and> map n_narrator_id ns = map (\<lambda>m. 78 # zfill 5 (group (convert_arabic_numerals s) m 1))
          (re_finditer entry_pattern (convert_arabic_numerals s))
     \<and> map n_volume ns = map (\<lambda>m. v) (re_finditer entry_pattern (convert_arabic_numerals s))"
  unfolding ne_extract_narrator_entries_def Let_def by (rule narrators_of_Inr [OF assms])

lemma narrators_of_single_name:
  "int_or_zero vol = Inr v \<Longrightarrow> int_or_zero pg = Inr g \<Longrightarrow>
   map_sum id (map n_full_name) (narrators_of s tc vol pg [m]) =
     Inr [py_strip (ne_extract_name (slice tc (m_start m) (length tc)))]"
  by (auto simp: narrator_of_def Let_def split: sum.splits)

lemma entries_twice:
  "re_finditer entry_pattern [49, 32, 45, 32, 97, 10, 49, 32, 45, 32, 98] =
     [(0, 5, [(2, 4, 5), (1, 0, 1)]), (6, 11, [(2, 10, 11), (1, 6, 7)])]"
  by (simp add: rx_eval isdecimal_def decimal_value_def entry_pattern_def)

lemma entries_twelve:
  "re_finditer entry_pattern [49, 50, 32, 45, 32, 97] = [(0, 6, [(2, 5, 6), (1, 0, 2)])]"
  by (simp add: rx_eval isdecimal_def decimal_value_def entry_pattern_def)

lemma convert_ascii:
  "convert_arabic_numerals [49, 32, 45, 32, 97, 10, 49, 32, 45, 32, 98] =
      [49, 32, 45, 32, 97, 10, 49, 32, 45, 32, 98]"
  "convert_arabic_numerals [49, 50, 32, 45, 32, 97] = [49, 50, 32, 45, 32, 97]"
  "convert_arabic_numerals (u ''1 - .'') = u ''1 - .''"
  "convert_arabic_numerals example_entry = example_entry"
  by (simp_all add: convert_arabic_numerals_def u_def example_entry_def)

lemma int_or_zero_empty: "int_or_zero (PStr []) = Inr 0"
  by (simp add: int_or_zero_def truthy_def)

lemma int_or_zero_one: "int_or_zero (PStr [1633]) = Inr 1"
  by (simp add: int_or_zero_def truthy_def py_int_def int_space_def isspace_def
      decimal_value_def decimal_blocks_def max_str_digits_def)

lemma int_or_zero_ten: "int_or_zero (PInt 10) = Inr 10"
  by (simp add: int_or_zero_def truthy_def)

lemma name_text_dot: "name_text (u ''1 - .'') = [46]"
  by (simp add: rx_eval u_def isdecimal_def decimal_value_def name_text_def marker_pattern_def
      ne_bracket_pattern_def ne_footnote_pattern_def)

lemma min_stop_dot: "min_stop stop_patterns [46] = 1"
  by (simp add: rx_eval min_stop_def stop_patterns_def)

lemma name_dot: "ne_extract_name (u ''1 - .'') = []"
  by (simp add: ne_extract_name_def name_text_dot min_stop_dot py_split_def isspace_def
      name_punctuation_def py_rstrip_chars_def py_strip_def)

lemma entries_dot: "re_finditer entry_pattern (u ''1 - .'') = [(0, 5, [(2, 4, 5), (1, 0, 1)])]"
  by (simp add: rx_eval isdecimal_def decimal_value_def entry_pattern_def u_def)

lemma entries_example: "re_finditer entry_pattern example_entry = [(0, 10, [(2, 4, 10), (1, 0, 1)])]"
  by (simp add: rx_eval isdecimal_def decimal_value_def entry_pattern_def example_entry_def)

text \<open>
  C1 (as amended).  A run of \<open>JarhWaTadilExtractor.extract_from_json\<close> from a fresh extractor
  that returns: the \<open>i\<close>-th record (from 1, in the order of emission) has the identifier \<open>N\<close>
  followed by \<open>i\<close> padded with zeros to five digits, so the identifiers are pairwise distinct,
  and the counter is one more than the number of records emitted (it is advanced once per
  record).  \<open>NarratorExtractor\<close> has no counter: when the volume and the page of a page convert,
  \<open>_extract_narrator_entries\<close> returns one record per match of the entry pattern, whose
  identifier is \<open>N\<close> followed by the number the entry itself starts with, filled with zeros to
  five characters.
\<close>

theorem sequential_narrator_ids:
  "(extract_from_json order new_extractor pages sv = Inr ex \<longrightarrow>
       map narrator_id (records ex) = map id_of [1..<Suc (length (records ex))]
     \<and> distinct (map narrator_id (records ex))
     \<and> counter ex = 1 + int (length (records ex)))
   \<and> (int_or_zero vol = Inr v \<longrightarrow> int_or_zero pg = Inr g \<longrightarrow>
       map_sum id (map n_narrator_id) (ne_extract_narrator_entries s vol pg) =
         Inr (map (\<lambda>m. 78 # zfill 5 (group (convert_arabic_numerals s) m 1))
                (re_finditer entry_pattern (convert_arabic_numerals s))))"
proof -
  have "map_sum id (map n_narrator_id) (ne_extract_narrator_entries s vol pg) =
         Inr (map (\<lambda>m. 78 # zfill 5 (group (convert_arabic_numerals s) m 1))
                (re_finditer entry_pattern (convert_arabic_numerals s)))"
    if "int_or_zero vol = Inr v" "int_or_zero pg = Inr g"
    using entries_Inr [OF that, of s] by auto
  with ids_sequential [of order pages sv ex] show ?thesis by blast
qed

text \<open>
  The example page in volume 2 gives one record, numbered 1, and leaves the counter at 2; the
  entry \<open>12 - a\<close> gives \<open>NarratorExtractor\<close> the identifier \<open>N00012\<close>.
\<close>

theorem sequential_narrator_ids_witness:
  "map_sum id (\<lambda>ex. (map narrator_id (records ex), counter ex))
     (extract_from_json remdups new_extractor [example_page (PStr [1634])] 2)
     = Inr ([u ''N00001''], 2)
   \<and> map_sum id (map n_narrator_id)
       (ne_extract_narrator_entries [49, 50, 32, 45, 32, 97] (PStr []) (PStr []))
     = Inr [u ''N00012'']"
proof -
  note r = example_run [of remdups]
  note t = sequential_narrator_ids [of remdups "[example_page (PStr [1634])]" 2 _
      "PStr []" 0 "PStr []" 0 "[49, 50, 32, 45, 32, 97]"]
  from t [unfolded r] have
    "map_sum id (map n_narrator_id)
       (ne_extract_narrator_entries [49, 50, 32, 45, 32, 97] (PStr []) (PStr []))
     = Inr [u ''N00012'']"
    by (simp add: int_or_zero_empty convert_ascii entries_twelve group_def slice_def zfill_def
        replicate_numeral u_def)
  moreover from t [unfolded r] have
    "map_sum id (\<lambda>ex. (map narrator_id (records ex), counter ex))
     (extract_from_json remdups new_extractor [example_page (PStr [1634])] 2)
     = Inr ([u ''N00001''], 2)"
    unfolding r by (simp add: u_def)
  ultimately show ?thesis by simp
qed

text \<open>
  C1 as stated fails for \<open>NarratorExtractor\<close>: on a page whose text is \<open>1 - a\<close> and, on the next
  line, \<open>1 - b\<close>, both records get the identifier \<open>N00001\<close>.
\<close>

theorem narrator_extractor_ids_repeat:
  "map_sum id (map n_narrator_id)
     (ne_extract_narrator_entries [49, 32, 45, 32, 97, 10, 49, 32, 45, 32, 98] (PStr []) (PStr []))
   = Inr [u ''N00001'', u ''N00001'']"
  using entries_Inr [OF int_or_zero_empty int_or_zero_empty,
      of "[49, 32, 45, 32, 97, 10, 49, 32, 45, 32, 98]"]
  by (auto simp: convert_ascii entries_twice group_def slice_def zfill_def replicate_numeral u_def)

text \<open>
  C2 (as amended).  In \<open>JarhWaTadilExtractor\<close> an entry for which \<open>extract_name\<close> gives \<open>None\<close> or
  the empty string yields no record and no error and leaves the extractor, hence the counter,
  as it was, so the loop over the entries goes on as if the entry were not there; and every
  record of a run from a fresh extractor has a non-empty \<open>full_name\<close>.  \<open>NarratorExtractor\<close>
  does not test the name: when the volume and the page of a page convert,
  \<open>_extract_narrator_entries\<close> returns exactly one record per match of the entry pattern.
\<close>

theorem unnamed_entry_dropped:
  "(extract_name e = None \<or> extract_name e = Some [] \<longrightarrow>
      process_entry order ex e pg v = Inr (None, ex)
      \<and> process_entries order ex (e # es) pg v = process_entries order ex es pg v)
   \<and> (extract_from_json order new_extractor pages sv = Inr ex' \<longrightarrow>
      list_all (\<lambda>r. full_name r \<noteq> []) (records ex'))
   \<and> (int_or_zero vol = Inr w \<longrightarrow> int_or_zero pg' = Inr g \<longrightarrow>
       map_sum id length (ne_extract_narrator_entries s vol pg') =
         Inr (length (re_finditer entry_pattern (convert_arabic_numerals s))))"
proof -
  have "map_sum id length (ne_extract_narrator_entries s vol pg') =
         Inr (length (re_finditer entry_pattern (convert_arabic_numerals s)))"
    if "int_or_zero vol = Inr w" "int_or_zero pg' = Inr g"
  proof -
    from entries_Inr [OF that, of s] obtain ns where
      n: "ne_extract_narrator_entries s vol pg' = Inr ns"
      and "map n_volume ns = map (\<lambda>m. w) (re_finditer entry_pattern (convert_arabic_numerals s))"
      by blast
    from this(2) have "length ns = length (re_finditer entry_pattern (convert_arabic_numerals s))"
      by (metis length_map)
    with n show ?thesis by simp
  qed
  with unnamed_dropped [of e order ex pg v es pages sv ex'] show ?thesis by blast
qed

text \<open>
  An entry without a number marker is dropped; the record of the example page has a name;
  \<open>NarratorExtractor\<close> returns one record for the text \<open>12 - a\<close>.
\<close>

theorem unnamed_entry_dropped_witness:
  "process_entry remdups new_extractor (u ''x'') PNone 2 = Inr (None, new_extractor)
   \<and> process_entries remdups new_extractor [u ''x'', example_entry] PNone 2
       = process_entries remdups new_extractor [example_entry] PNone 2
   \<and> map_sum id (\<lambda>ex. map full_name (records ex))
       (extract_from_json remdups new_extractor [example_page (PStr [1634])] 2)
       = Inr [[1575, 32, 1576, 1606, 32, 1576]]
   \<and> list_all (\<lambda>n. n \<noteq> []) [[1575, 32, 1576, 1606, 32, 1576 :: nat]]
   \<and> map_sum id length
       (ne_extract_narrator_entries [49, 50, 32, 45, 32, 97] (PStr []) (PStr [])) = Inr 1"
proof -
  note r = example_run [of remdups]
  note t = unnamed_entry_dropped [of "u ''x''" remdups new_extractor PNone 2 "[example_entry]"
      "[example_page (PStr [1634])]" 2 _ "PStr []" 0 "PStr []" 0 "[49, 50, 32, 45, 32, 97]"]
  from t [unfolded r] show ?thesis
    unfolding r
    by (simp add: no_marker_no_name int_or_zero_empty convert_ascii entries_twelve)
qed

text \<open>
  C2 as stated fails for \<open>NarratorExtractor\<close>: the entry \<open>1 - .\<close> has the empty name, and a
  record with that name is returned.
\<close>

theorem narrator_extractor_empty_name:
  "map_sum id (map n_full_name)
     (ne_extract_narrator_entries (u ''1 - .'') (PStr []) (PStr [])) = Inr [[]]"
proof -
  have s: "slice (u ''1 - .'') (m_start (0, 5, [(2, 4, 5), (1, 0, 1)])) (length (u ''1 - .''))
      = u ''1 - .''"
    by (simp add: slice_def u_def m_start_def)
  show ?thesis
    unfolding ne_extract_narrator_entries_def Let_def convert_ascii entries_dot
      narrators_of_single_name [OF int_or_zero_empty int_or_zero_empty] s name_dot
    by (simp add: py_strip_def)
qed

text \<open>
  C6 (as amended).  In \<open>JarhWaTadilExtractor.extract_from_json\<close> a page whose volume, read
  after the conversion of its Arabic-Indic digits, is below \<open>start_volume\<close> contributes nothing:
  the run is the run on the pages without it, whatever its text.  \<open>NarratorExtractor\<close> has no
  threshold: when the volume and the page of a page convert, \<open>_extract_narrator_entries\<close>
  returns a record for every match of the entry pattern, with that volume, whatever the volume
  is.
\<close>

theorem low_volume_page_skipped:
  "(page_volume p = Inr v \<longrightarrow> v < sv \<longrightarrow>
      extract_from_json order ex (ps @ p # qs) sv = extract_from_json order ex (ps @ qs) sv)
   \<and> (int_or_zero vol = Inr w \<longrightarrow> int_or_zero pg = Inr g \<longrightarrow>
       map_sum id (map n_volume) (ne_extract_narrator_entries s vol pg) =
         Inr (map (\<lambda>m. w) (re_finditer entry_pattern (convert_arabic_numerals s))))"
proof -
  have "map_sum id (map n_volume) (ne_extract_narrator_entries s vol pg) =
         Inr (map (\<lambda>m. w) (re_finditer entry_pattern (convert_arabic_numerals s)))"
    if "int_or_zero vol = Inr w" "int_or_zero pg = Inr g"
    using entries_Inr [OF that, of s] by auto
  with low_volume_skipped [of p v sv order ex ps qs] show ?thesis by blast
qed

text \<open>
  The example page in volume 1, written with an Arabic-Indic digit, under the threshold 2:
  the run on it alone is the run on no page, which leaves the fresh extractor as it is.  The
  text \<open>12 - a\<close> of a page in volume 1 gives \<open>NarratorExtractor\<close> one record, of volume 1.
\<close>

theorem low_volume_page_skipped_witness:
  "extract_from_json remdups new_extractor [example_page (PStr [1633])] 2 = Inr new_extractor
   \<and> map_sum id (map n_volume)
       (ne_extract_narrator_entries [49, 50, 32, 45, 32, 97] (PStr [1633]) (PStr [])) = Inr [1]"
  using low_volume_page_skipped [of "example_page (PStr [1633])" 1 2 remdups new_extractor "[]" "[]"
      "PStr [1633]" 1 "PStr []" 0 "[49, 50, 32, 45, 32, 97]"]
  by (simp add: example_volume int_or_zero_empty int_or_zero_one convert_ascii entries_twelve)

text \<open>
  C6 as stated fails for \<open>NarratorExtractor\<close>: the example page in volume 1 yields a record.
\<close>

theorem narrator_extractor_keeps_volume_one:
  "map_sum id (map n_volume) (ne_extract_narrators [] [Page (example_page (PStr [1633]))])
     = Inr [1]"
proof -
  have p: "narrators_of_page (example_page (PStr [1633])) =
      ne_extract_narrator_entries example_entry (PStr [1633]) (PInt 10)"
    by (simp add: narrators_of_page_def example_page_def get_def)
  from entries_Inr [OF int_or_zero_one int_or_zero_ten, of example_entry]
  show ?thesis
    by (auto simp: p convert_ascii entries_example)
qed

section \<open>Two runs on one input\<close>

lemma set_order_remdups: "set_order remdups"
  by (simp add: set_order_def)

lemma set_order_rev_remdups: "set_order (rev \<circ> remdups)"
  by (simp add: set_order_def)

lemma process_entry_same:
  assumes o: "set_order order" "set_order order'" and c: "counter ex = counter ex'"
    and r: "list_all2 same_but_order (records ex) (records ex')"
  shows "rel_sum (=) (rel_prod (rel_option same_but_order) same_run)
     (process_entry order ex e pg v) (process_entry order' ex' e pg v)"
  using o c r
  by (auto simp: process_entry_def extract_teachers_students_def Let_def same_run_def
      same_but_order_def set_order_def split: option.splits prod.splits sum.splits)

lemma process_entries_same:
  assumes o: "set_order order" "set_order order'"
  shows "same_run ex ex' \<Longrightarrow>
    rel_sum (=) same_run (process_entries order ex es pg v) (process_entries order' ex' es pg v)"
proof (induction es arbitrary: ex ex')
  case Nil
  then show ?case by simp
next
  case (Cons e es)
  from Cons.prems have c: "counter ex = counter ex'"
    and r: "list_all2 same_but_order (records ex) (records ex')"
    by (simp_all add: same_run_def)
  note p = process_entry_same [OF o c r, of e pg v]
  show ?case
  proof (cases "process_entry order ex e pg v")
    case (Inl a)
    with p show ?thesis by (cases "process_entry order' ex' e pg v") auto
  next
    case (Inr x)
    with p obtain y where y: "process_entry order' ex' e pg v = Inr y"
      and xy: "rel_prod (rel_option same_but_order) same_run x y"
      by (cases "process_entry order' ex' e pg v") auto
    obtain ro x1 where x: "x = (ro, x1)" by (cases x)
    obtain ro' y1 where y': "y = (ro', y1)" by (cases y)
    from xy x y' have ro: "rel_option same_but_order ro ro'" and s: "same_run x1 y1" by simp_all
    show ?thesis
    proof (cases ro)
      case None
      with ro have "ro' = None" by (cases ro') simp_all
      with None Inr y x y' Cons.IH [OF s] show ?thesis by simp
    next
      case (Some a)
      with ro obtain b where b: "ro' = Some b" "same_but_order a b" by (cases ro') simp_all
      from s b(2) have "same_run (x1\<lparr>records := records x1 @ [a]\<rparr>) (y1\<lparr>records := records y1 @ [b]\<rparr>)"
        by (simp add: same_run_def list_all2_appendI)
      from Cons.IH [OF this] Some b Inr y x y' show ?thesis by simp
    qed
  qed
qed

lemma extract_from_json_same:
  assumes o: "set_order order" "set_order order'"
  shows "same_run ex ex' \<Longrightarrow>
    rel_sum (=) same_run (extract_from_json order ex pages sv) (extract_from_json order' ex' pages sv)"
proof (induction pages arbitrary: ex ex')
  case Nil
  then show ?case by simp
next
  case (Cons p pages)
  show ?case
  proof (cases "page_volume p")
    case (Inl a)
    then show ?thesis by simp
  next
    case (Inr vol)
    show ?thesis
    proof (cases "vol < sv")
      case True
      with Inr Cons show ?thesis by simp
    next
      case False
      note q = process_entries_same [OF o Cons.prems,
          of "segment_entries (get (p_text p) [])" "get (p_page p) PNone" vol]
      show ?thesis
      proof (cases "process_entries order ex (segment_entries (get (p_text p) [])) (get (p_page p) PNone) vol")
        case (Inl a)
        with q Inr False show ?thesis
          by (cases "process_entries order' ex' (segment_entries (get (p_text p) [])) (get (p_page p) PNone) vol") auto
      next
        case r: (Inr x)
        with q obtain y where
          y: "process_entries order' ex' (segment_entries (get (p_text p) [])) (get (p_page p) PNone) vol = Inr y"
          and "same_run x y"
          by (cases "process_entries order' ex' (segment_entries (get (p_text p) [])) (get (p_page p) PNone) vol") auto
        from Cons.IH [OF this(2)] r y Inr False show ?thesis by simp
      qed
    qed
  qed
qed

lemma two_teachers_name: "extract_name two_teachers = Some [1575, 32, 1576, 1606, 32, 1576]"
  by (simp add: two_teachers_def a_eval decimal_blocks_def)

lemma two_teachers_segments: "segment_entries two_teachers = [two_teachers]"
  by (simp add: two_teachers_def segment_entries_def arabic_to_western_def boundary_pattern_def
      marker_pattern_def rx_eval isdecimal_def decimal_value_def decimal_blocks_def between.simps)

lemma two_teachers_added:
  "foldl (add_matches two_teachers) [] teacher_patterns
     = [[1578, 32, 1576, 1606, 32, 1579], [1580, 32, 1576, 1606, 32, 1581]]"
  "foldl (add_matches two_teachers) [] student_patterns = []"
  by (simp_all add: two_teachers_def add_matches_def teacher_patterns_def student_patterns_def
      names_group_def split_names_def rx_eval between.simps)

lemma two_teachers_names:
  "extract_teachers_students order two_teachers =
     (order [[1578, 32, 1576, 1606, 32, 1579], [1580, 32, 1576, 1606, 32, 1581]], order [])"
  by (simp add: extract_teachers_students_def two_teachers_added)

lemma two_teachers_volume: "page_volume two_teachers_page = Inr 2"
  by (simp add: page_volume_def two_teachers_page_def get_def py_str_def arabic_to_western_def
      py_int_def int_space_def isspace_def decimal_value_def max_str_digits_def)

lemma two_teachers_fields: "p_text two_teachers_page = Some two_teachers"
  "p_page two_teachers_page = Some (PInt 10)"
  by (simp_all add: two_teachers_page_def)

lemma two_teachers_run:
  "extract_from_json order new_extractor [two_teachers_page] 2 =
     Inr \<lparr>records = [\<lparr>narrator_id = u ''N00001'', full_name = [1575, 32, 1576, 1606, 32, 1576],
        taadil = fst (extract_judgements two_teachers),
        jarh = fst (snd (extract_judgements two_teachers)),
        unclassified = snd (snd (extract_judgements two_teachers)),
        teachers = order [[1578, 32, 1576, 1606, 32, 1579], [1580, 32, 1576, 1606, 32, 1581]],
        students = order [],
        source_volume = 2, source_page = PInt 10\<rparr>], counter = 2\<rparr>"
  by (simp add: two_teachers_volume two_teachers_segments two_teachers_fields get_def
      process_entry_def two_teachers_name two_teachers_names fmt_1 new_extractor_def
      case_prod_unfold u_def)

text \<open>
  C9 (as amended).  A run of \<open>JarhWaTadilExtractor.extract_from_json\<close> depends on its input
  and on the order in which \<open>list\<close> enumerates a set of strings, and on nothing else.  Two
  runs from a fresh extractor on the same input, under any two such orders, fail alike or
  return the same number of records and the same counter, and corresponding records agree in
  \<open>narrator_id\<close>, \<open>full_name\<close>, \<open>taadil\<close>, \<open>jarh\<close>, \<open>unclassified\<close> and the source, and hold the
  same teachers and the same students, each once; the order of the teachers and of the
  students is the one thing that may differ.
\<close>

theorem runs_agree_up_to_set_order:
  "set_order order \<Longrightarrow> set_order order' \<Longrightarrow>
   rel_sum (=) same_run (extract_from_json order new_extractor pages sv)
     (extract_from_json order' new_extractor pages sv)"
proof -
  assume o: "set_order order" "set_order order'"
  have "same_run new_extractor new_extractor" by (simp add: same_run_def new_extractor_def)
  from extract_from_json_same [OF o this] show ?thesis .
qed

text \<open>
  A page in volume 2 whose entry names two teachers, enumerated in the order of insertion
  and in the reverse order.
\<close>

theorem runs_agree_up_to_set_order_witness:
  "set_order remdups \<and> set_order (rev \<circ> remdups)
   \<and> rel_sum (=) same_run (extract_from_json remdups new_extractor [two_teachers_page] 2)
       (extract_from_json (rev \<circ> remdups) new_extractor [two_teachers_page] 2)
   \<and> extract_from_json remdups new_extractor [two_teachers_page] 2
       \<noteq> extract_from_json (rev \<circ> remdups) new_extractor [two_teachers_page] 2"
proof -
  note t = runs_agree_up_to_set_order [OF set_order_remdups set_order_rev_remdups,
      of "[two_teachers_page]" 2]
  from t show ?thesis
    unfolding two_teachers_run by (simp add: set_order_remdups set_order_rev_remdups)
qed

text \<open>
  C9 as stated fails: the teachers of the record of that page come out in one order under
  one enumeration of the set and in the other order under another.
\<close>

theorem teachers_order_not_fixed:
  "map_sum id (map teachers \<circ> records)
      (extract_from_json remdups new_extractor [two_teachers_page] 2)
     = Inr [[[1578, 32, 1576, 1606, 32, 1579], [1580, 32, 1576, 1606, 32, 1581]]]
   \<and> map_sum id (map teachers \<circ> records)
      (extract_from_json (rev \<circ> remdups) new_extractor [two_teachers_page] 2)
     = Inr [[[1580, 32, 1576, 1606, 32, 1581], [1578, 32, 1576, 1606, 32, 1579]]]"
  unfolding two_teachers_run by simp

section \<open>The names accepted as teachers and students\<close>

lemma add_names_fold:
  "foldl (add_name clean) acc xs = fromkeys acc (filter is_name (map clean xs))"
  by (induction xs arbitrary: acc) (auto simp: add_name_def Let_def)

lemma fold_concat:
  "foldl (\<lambda>acc x. foldl f acc (g x)) acc xs = foldl f acc (concat (map g xs))"
  by (induction xs arbitrary: acc) auto

lemma collect_names_eq:
  "collect_names clean patterns s =
     fromkeys [] (filter is_name (map clean (candidates patterns s)))"
proof -
  have "collect_names clean patterns s =
      foldl (\<lambda>acc p. foldl (add_name clean) acc
          (concat (map (re_split conjunction_pattern) (re_findall p s)))) [] patterns"
    unfolding collect_names_def
    by (simp only: fold_concat [of "add_name clean" "re_split conjunction_pattern"])
  also have "\<dots> = foldl (add_name clean) [] (candidates patterns s)"
    unfolding candidates_def
    by (rule fold_concat [of "add_name clean"
          "\<lambda>p. concat (map (re_split conjunction_pattern) (re_findall p s))"])
  finally show ?thesis by (simp only: add_names_fold)
qed

lemma fromkeys_set: "set (fromkeys seen xs) = set seen \<union> set xs"
  by (induction xs arbitrary: seen) auto

lemma fromkeys_is_distinct: "distinct seen \<Longrightarrow> distinct (fromkeys seen xs)"
  by (induction xs arbitrary: seen) auto

lemma add_matches_set:
  "set (add_matches s added p) =
     set added \<union> (\<Union>m \<in> set (re_finditer p s). set (split_names (group s m 1)))"
proof -
  have a: "foldl (\<lambda>acc' name. acc' @ [name]) acc ns = acc @ ns" for acc ns :: "ustr list"
    by (induction ns arbitrary: acc) auto
  have "set (foldl (\<lambda>acc m. acc @ split_names (group s m 1)) added ms') =
      set added \<union> (\<Union>m \<in> set ms'. set (split_names (group s m 1)))" for ms'
    by (induction ms' arbitrary: added) auto
  then show ?thesis by (simp add: add_matches_def a)
qed

lemma split_names_nonempty: "n \<in> set (split_names raw) \<Longrightarrow> n \<noteq> []"
  by (auto simp: split_names_def Let_def)

lemma added_nonempty:
  "[] \<notin> set added \<Longrightarrow> [] \<notin> set (foldl (add_matches s) added ps)"
proof (induction ps arbitrary: added)
  case Nil
  then show ?case by simp
next
  case (Cons p ps)
  from Cons.prems have "[] \<notin> set (add_matches s added p)"
    by (auto simp: add_matches_set dest: split_names_nonempty)
  from Cons.IH [OF this] show ?case by simp
qed

text \<open>
  C7 (as amended).  In \<open>NarratorExtractor\<close> the teachers (and likewise the students) of a
  text are the cleaned candidates that are longer than two characters and contain none of
  the three metadata tokens, each at its first occurrence, in the order of the loops: a
  candidate is accepted only if its cleaned form passes that test and is not yet in the
  list, and the list has no duplicates.  \<open>JarhWaTadilExtractor\<close> has no such test: it keeps
  every name that is not blank, and its lists have no duplicates because they are the
  enumerations of sets.
\<close>

theorem accepted_names_are_filtered:
  "ne_extract_teachers s =
     fromkeys [] (filter is_name (map clean_teacher (candidates ne_teacher_patterns s)))
   \<and> ne_extract_students s =
     fromkeys [] (filter is_name (map clean_student (candidates ne_student_patterns s)))
   \<and> (\<forall>t \<in> set (ne_extract_teachers s) \<union> set (ne_extract_students s).
        2 < length t \<and> \<not> py_in [1576, 1610, 1575, 1590] t
        \<and> \<not> py_in [1575, 1581, 1575, 1583, 1610, 1579] t \<and> \<not> py_in [1581, 1583, 1610, 1579] t)
   \<and> distinct (ne_extract_teachers s) \<and> distinct (ne_extract_students s)
   \<and> (set_order order \<longrightarrow>
        distinct (fst (extract_teachers_students order s'))
        \<and> distinct (snd (extract_teachers_students order s'))
        \<and> [] \<notin> set (fst (extract_teachers_students order s'))
        \<and> [] \<notin> set (snd (extract_teachers_students order s')))"
proof -
  have t: "ne_extract_teachers s =
     fromkeys [] (filter is_name (map clean_teacher (candidates ne_teacher_patterns s)))"
    by (simp add: ne_extract_teachers_def collect_names_eq)
  have st: "ne_extract_students s =
     fromkeys [] (filter is_name (map clean_student (candidates ne_student_patterns s)))"
    by (simp add: ne_extract_students_def collect_names_eq)
  have n: "\<forall>t \<in> set (ne_extract_teachers s) \<union> set (ne_extract_students s). is_name t"
    unfolding t st by (auto simp: fromkeys_set)
  have d: "distinct (ne_extract_teachers s)" "distinct (ne_extract_students s)"
    unfolding t st by (simp_all add: fromkeys_is_distinct)
  have a: "distinct (fst (extract_teachers_students order s'))
        \<and> distinct (snd (extract_teachers_students order s'))
        \<and> [] \<notin> set (fst (extract_teachers_students order s'))
        \<and> [] \<notin> set (snd (extract_teachers_students order s'))" if "set_order order"
    using that added_nonempty [of "[]" s' teacher_patterns]
      added_nonempty [of "[]" s' student_patterns]
    by (simp add: extract_teachers_students_def Let_def set_order_def)
  from t st n d a show ?thesis unfolding is_name_def by blast
qed

lemma zayd_teachers: "ne_extract_teachers narrated_from_zayd = [[1586, 1610, 1583]]"
  by (simp add: ne_extract_teachers_def collect_names_def ne_teacher_patterns_def
      captured_names_def teacher_boundary_def conjunction_pattern_def narrated_from_zayd_def
      add_name_def clean_teacher_def is_name_def ne_bracket_pattern_def ne_footnote_pattern_def
      rx_eval between.simps)

lemma zayd_students: "ne_extract_students narrated_from_zayd = []"
  by (simp add: ne_extract_students_def collect_names_def ne_student_patterns_def
      captured_names_def student_boundary_def conjunction_pattern_def narrated_from_zayd_def
      add_name_def clean_student_def is_name_def ne_bracket_pattern_def ne_footnote_pattern_def
      rx_eval between.simps)

lemma short_and_hadith_added:
  "foldl (add_matches short_and_hadith) [] teacher_patterns
     = [[1575], [1581, 1583, 1610, 1579, 32, 1576, 1606, 32, 1576]]"
  "foldl (add_matches short_and_hadith) [] student_patterns = []"
  by (simp_all add: short_and_hadith_def add_matches_def teacher_patterns_def student_patterns_def
      names_group_def split_names_def rx_eval between.simps)

lemma short_and_hadith_names:
  "extract_teachers_students order short_and_hadith =
     (order [[1575], [1581, 1583, 1610, 1579, 32, 1576, 1606, 32, 1576]], order [])"
  by (simp add: extract_teachers_students_def short_and_hadith_added)

text \<open>
  The text \<open>narrated from Zayd.\<close> gives \<open>NarratorExtractor\<close> the one teacher \<open>Zayd\<close>, of three
  characters; the entry with two teachers gives \<open>JarhWaTadilExtractor\<close> two different names.
\<close>

theorem accepted_names_are_filtered_witness:
  "fromkeys [] (filter is_name (map clean_teacher (candidates ne_teacher_patterns narrated_from_zayd)))
     = [[1586, 1610, 1583]]
   \<and> fromkeys [] (filter is_name (map clean_student (candidates ne_student_patterns narrated_from_zayd)))
     = []
   \<and> ne_extract_teachers narrated_from_zayd = [[1586, 1610, 1583]]
   \<and> ne_extract_students narrated_from_zayd = []
   \<and> \<not> py_in [1581, 1583, 1610, 1579] [1586, 1610, 1583]
   \<and> set_order remdups
   \<and> extract_teachers_students remdups two_teachers =
       ([[1578, 32, 1576, 1606, 32, 1579], [1580, 32, 1576, 1606, 32, 1581]], [])"
proof -
  note t = accepted_names_are_filtered [of narrated_from_zayd remdups two_teachers]
  from t show ?thesis
    unfolding zayd_teachers zayd_students two_teachers_names
    by (simp add: set_order_remdups)
qed

text \<open>
  C7 as stated fails for \<open>JarhWaTadilExtractor\<close>: from \<open>narrated from\<close> followed by a name of
  one letter, a comma and a name that starts with the word \<open>hadith\<close>, both names are accepted as
  teachers.
\<close>

theorem unfiltered_teacher_names:
  "fst (extract_teachers_students remdups short_and_hadith) =
     [[1575], [1581, 1583, 1610, 1579, 32, 1576, 1606, 32, 1576]]
   \<and> length [1575 :: nat] = 1
   \<and> py_in [1581, 1583, 1610, 1579] [1581, 1583, 1610, 1579, 32, 1576, 1606, 32, 1576]"
  by (simp add: short_and_hadith_names)

section \<open>The name of an entry\<close>

text \<open>\<open>re.search\<close> returns the leftmost match.\<close>

lemma search_from_first:
  "search_from r i s = Some m \<Longrightarrow>
     i \<le> m_start m \<and> m_start m \<le> i + length s
     \<and> match_at r False (m_start m) (drop (m_start m - i) s) \<noteq> None
     \<and> (\<forall>j. i \<le> j \<and> j < m_start m \<longrightarrow> match_at r False j (drop (j - i) s) = None)"
proof (induction s arbitrary: i)
  case Nil
  then show ?case by (auto simp: m_start_def split: option.splits)
next
  case (Cons x s)
  show ?case
  proof (cases "match_at r False i (x # s)")
    case None
    with Cons.prems have "search_from r (Suc i) s = Some m" by simp
    from Cons.IH [OF this] have ih: "Suc i \<le> m_start m" "m_start m \<le> Suc i + length s"
      "match_at r False (m_start m) (drop (m_start m - Suc i) s) \<noteq> None"
      "\<forall>j. Suc i \<le> j \<and> j < m_start m \<longrightarrow> match_at r False j (drop (j - Suc i) s) = None"
      by auto
    from ih(1) have d: "drop (m_start m - i) (x # s) = drop (m_start m - Suc i) s"
      by (simp add: drop_Cons' Suc_diff_le)
    have "match_at r False j (drop (j - i) (x # s)) = None" if "i \<le> j" "j < m_start m" for j
    proof (cases "j = i")
      case True
      with None show ?thesis by simp
    next
      case False
      with that have "Suc i \<le> j" by simp
      with ih(4) that have "match_at r False j (drop (j - Suc i) s) = None" by simp
      moreover from \<open>Suc i \<le> j\<close> have "drop (j - i) (x # s) = drop (j - Suc i) s"
        by (simp add: drop_Cons' Suc_diff_le)
      ultimately show ?thesis by simp
    qed
    with ih d show ?thesis by auto
  next
    case (Some a)
    with Cons.prems show ?thesis by (auto simp: m_start_def split: prod.splits)
  qed
qed

lemma re_search_first:
  "re_search r s = Some m \<Longrightarrow>
     m_start m \<le> length s \<and> match_at r False (m_start m) (drop (m_start m) s) \<noteq> None
     \<and> (\<forall>j < m_start m. match_at r False j (drop j s) = None)"
  using search_from_first [of r 0 s m] by (simp add: re_search_def)

lemma search_from_none:
  "search_from r i s = None \<Longrightarrow> i \<le> j \<Longrightarrow> j \<le> i + length s \<Longrightarrow>
     match_at r False j (drop (j - i) s) = None"
proof (induction s arbitrary: i)
  case Nil
  then show ?case by (auto split: option.splits)
next
  case (Cons x s)
  from Cons.prems(1) have n: "match_at r False i (x # s) = None"
    and r: "search_from r (Suc i) s = None"
    by (auto split: option.splits)
  show ?case
  proof (cases "j = i")
    case True
    with n show ?thesis by simp
  next
    case False
    with Cons.prems have j: "Suc i \<le> j" "j \<le> Suc i + length s" by simp_all
    from Cons.IH [OF r j] have "match_at r False j (drop (j - Suc i) s) = None" .
    moreover from j(1) have "drop (j - i) (x # s) = drop (j - Suc i) s"
      by (simp add: drop_Cons' Suc_diff_le)
    ultimately show ?thesis by simp
  qed
qed

lemma re_search_none:
  "re_search r s = None \<Longrightarrow> j \<le> length s \<Longrightarrow> match_at r False j (drop j s) = None"
  using search_from_none [of r 0 s j] by (simp add: re_search_def)

lemma min_stop_fold:
  "foldl (\<lambda>min_pos p.
              case re_search p s of
                None \<Rightarrow> min_pos
              | Some m \<Rightarrow> if m_start m < min_pos then m_start m else min_pos) acc ps = k \<Longrightarrow>
   k \<le> acc
   \<and> (\<forall>p \<in> set ps. \<forall>m. re_search p s = Some m \<longrightarrow> k \<le> m_start m)
   \<and> (k < acc \<longrightarrow> (\<exists>p \<in> set ps. \<exists>m. re_search p s = Some m \<and> m_start m = k))"
proof (induction ps arbitrary: acc)
  case Nil
  then show ?case by simp
next
  case (Cons p ps)
  show ?case
  proof (cases "re_search p s")
    case None
    with Cons.prems Cons.IH [of acc] show ?thesis by auto
  next
    case (Some m)
    show ?thesis
    proof (cases "m_start m < acc")
      case True
      with Some Cons.prems have f: "foldl (\<lambda>min_pos p.
              case re_search p s of
                None \<Rightarrow> min_pos
              | Some m \<Rightarrow> if m_start m < min_pos then m_start m else min_pos) (m_start m) ps = k"
        by simp
      note ih = Cons.IH [OF f]
      from ih True have 1: "k \<le> acc" by simp
      from ih Some have 2: "\<forall>q \<in> set (p # ps). \<forall>m'. re_search q s = Some m' \<longrightarrow> k \<le> m_start m'"
        by auto
      have 3: "\<exists>q \<in> set (p # ps). \<exists>m'. re_search q s = Some m' \<and> m_start m' = k"
      proof (cases "k < m_start m")
        case True
        with ih show ?thesis by auto
      next
        case False
        with ih have "m_start m = k" by simp
        with Some have "re_search p s = Some m \<and> m_start m = k" by simp
        then show ?thesis by (intro bexI [of _ p] exI [of _ m]) simp_all
      qed
      from 1 2 3 show ?thesis by blast
    next
      case False
      with Some Cons.prems Cons.IH [of acc] show ?thesis by auto
    qed
  qed
qed

lemma min_stop_earliest:
  "min_stop ps s \<le> length s
   \<and> (\<forall>p \<in> set ps. \<forall>i < min_stop ps s. match_at p False i (drop i s) = None)
   \<and> (min_stop ps s < length s \<longrightarrow>
        (\<exists>p \<in> set ps. match_at p False (min_stop ps s) (drop (min_stop ps s) s) \<noteq> None))"
proof -
  note f = min_stop_fold [of s "length s" ps "min_stop ps s", unfolded min_stop_def [symmetric],
      OF refl]
  have "match_at p False i (drop i s) = None" if p: "p \<in> set ps" and i: "i < min_stop ps s" for p i
  proof (cases "re_search p s")
    case None
    from f i have "i \<le> length s" by simp
    from re_search_none [OF None this] show ?thesis .
  next
    case (Some m)
    with f p have "min_stop ps s \<le> m_start m" by blast
    with i re_search_first [OF Some] show ?thesis by simp
  qed
  moreover have "\<exists>p \<in> set ps. match_at p False (min_stop ps s) (drop (min_stop ps s) s) \<noteq> None"
    if "min_stop ps s < length s"
  proof -
    from f that obtain p m where "p \<in> set ps" "re_search p s = Some m" "m_start m = min_stop ps s"
      by blast
    with re_search_first [OF this(2)] show ?thesis by auto
  qed
  ultimately show ?thesis using f by blast
qed

lemma split_ws_words:
  "\<forall>c \<in> set w. \<not> isspace c \<Longrightarrow> list_all word (split_ws w s)"
  by (induction s arbitrary: w) (auto simp: word_def)

lemma py_split_words: "list_all word (py_split s)"
  by (simp add: py_split_def split_ws_words)

lemma split_ws_word:
  "\<forall>c \<in> set v. \<not> isspace c \<Longrightarrow> split_ws w (v @ s) = split_ws (w @ v) s"
  by (induction v arbitrary: w) auto

lemma split_ws_join:
  "list_all word (w # ws) \<Longrightarrow> split_ws [] (py_join [32] (w # ws)) = w # ws"
proof (induction ws arbitrary: w)
  case Nil
  then show ?case
    using split_ws_word [of w "[]" "[]"] by (simp add: word_def)
next
  case (Cons v ws)
  from Cons.prems have "word w" and l: "list_all word (v # ws)" by simp_all
  then have w: "w \<noteq> []" "\<forall>c \<in> set w. \<not> isspace c" by (simp_all add: word_def)
  have "split_ws [] (w @ 32 # py_join [32] (v # ws)) = split_ws w (32 # py_join [32] (v # ws))"
    using split_ws_word [OF w(2), of "[]"] by simp
  also have "\<dots> = w # split_ws [] (py_join [32] (v # ws))"
    using w(1) by (simp add: isspace_def)
  also have "\<dots> = w # v # ws" using Cons.IH [OF l] by simp
  finally show ?case by simp
qed

lemma py_split_join: "list_all word ws \<Longrightarrow> py_split (py_join [32] ws) = ws"
  by (cases ws) (simp_all add: py_split_def split_ws_join)

lemma six_words:
  "length (py_split (ne_extract_name entry)) \<le> 6"
proof -
  have "length (py_split (if 6 < length (py_split n) then py_join [32] (take 6 (py_split n)) else n)) \<le> 6"
    for n
  proof (cases "6 < length (py_split n)")
    case True
    have "list_all word (take 6 (py_split n))"
      using py_split_words [of n] by (simp add: list_all_iff) (meson in_set_takeD)
    from py_split_join [OF this] True show ?thesis by simp
  next
    case False
    then show ?thesis by simp
  qed
  then show ?thesis by (simp add: ne_extract_name_def Let_def)
qed

text \<open>
  C5 (as amended).  In \<open>NarratorExtractor._extract_name\<close>, with the number marker, the
  brackets and the footnote markers removed from the entry, let \<open>k\<close> be the position the
  loop over the stop patterns ends with.  No stop pattern matches at a position before \<open>k\<close>;
  if \<open>k\<close> is before the end of the text, a stop pattern matches at \<open>k\<close>, and the name is
  the text before \<open>k\<close>; otherwise the name is the first five words of the text.  Either is
  trimmed of blanks and of the punctuation at its end, and cut to six words; the name
  returned has at most six words.
\<close>

theorem name_before_earliest_stop:
  "(let s = name_text entry; k = min_stop stop_patterns s in
      k \<le> length s
      \<and> (\<forall>p \<in> set stop_patterns. \<forall>i < k. match_at p False i (drop i s) = None)
      \<and> (k < length s \<longrightarrow> (\<exists>p \<in> set stop_patterns. match_at p False k (drop k s) \<noteq> None))
      \<and> ne_extract_name entry =
          capped (trimmed (if k < length s then py_strip (take k s)
                           else py_join [32] (take 5 (py_split s)))))
   \<and> length (py_split (ne_extract_name entry)) \<le> 6"
  using min_stop_earliest [of stop_patterns "name_text entry"] six_words [of entry]
  by (simp add: Let_def ne_extract_name_def capped_def trimmed_def)

lemma zayd_text: "name_text zayd_entry = [1586, 1610, 1583, 32, 1602, 1575, 1604, 32, 1579, 1602, 1577]"
  by (simp add: rx_eval zayd_entry_def isdecimal_def decimal_value_def decimal_blocks_def
      name_text_def marker_pattern_def ne_bracket_pattern_def ne_footnote_pattern_def between.simps)

lemma zayd_stop:
  "min_stop stop_patterns [1586, 1610, 1583, 32, 1602, 1575, 1604, 32, 1579, 1602, 1577] = 3"
  by (simp add: rx_eval min_stop_def stop_patterns_def)

lemma zayd_name: "ne_extract_name zayd_entry = [1586, 1610, 1583]"
  by (simp add: ne_extract_name_def zayd_text zayd_stop py_split_def isspace_def
      name_punctuation_def py_rstrip_chars_def py_strip_def)

lemma letters_text: "name_text (u ''1 - a b c d e f g'') = u ''a b c d e f g''"
  by (simp add: rx_eval u_def isdecimal_def decimal_value_def name_text_def marker_pattern_def
      ne_bracket_pattern_def ne_footnote_pattern_def between.simps)

lemma letters_stop: "min_stop stop_patterns (u ''a b c d e f g'') = 13"
  by (simp add: rx_eval u_def min_stop_def stop_patterns_def)

lemma letters_name: "ne_extract_name (u ''1 - a b c d e f g'') = u ''a b c d e''"
  by (simp add: ne_extract_name_def letters_text letters_stop)
     (simp add: u_def py_split_def isspace_def name_punctuation_def py_rstrip_chars_def py_strip_def)

text \<open>
  In \<open>Zayd said: trustworthy\<close> the stop phrase \<open>said\<close> starts at position 3 and the name is
  \<open>Zayd\<close>; the text \<open>a b c d e f g\<close> has no stop phrase and the name is \<open>a b c d e\<close>.
\<close>

theorem name_before_earliest_stop_witness:
  "min_stop stop_patterns (name_text zayd_entry) = 3
   \<and> ne_extract_name zayd_entry = [1586, 1610, 1583]
   \<and> capped (trimmed (py_strip (take 3 (name_text zayd_entry)))) = [1586, 1610, 1583]
   \<and> min_stop stop_patterns (name_text (u ''1 - a b c d e f g'')) = 13
   \<and> ne_extract_name (u ''1 - a b c d e f g'') = u ''a b c d e''
   \<and> capped (trimmed (py_join [32] (take 5 (py_split (name_text (u ''1 - a b c d e f g''))))))
       = u ''a b c d e''"
proof -
  note a = name_before_earliest_stop [of zayd_entry]
  note b = name_before_earliest_stop [of "u ''1 - a b c d e f g''"]
  from a have "capped (trimmed (py_strip (take 3 (name_text zayd_entry)))) = [1586, 1610, 1583]"
    unfolding Let_def zayd_text zayd_stop zayd_name by simp
  moreover from b have
    "capped (trimmed (py_join [32] (take 5 (py_split (name_text (u ''1 - a b c d e f g''))))))
       = u ''a b c d e''"
    unfolding Let_def letters_text letters_stop letters_name by (simp add: u_def)
  ultimately show ?thesis by (simp add: zayd_text zayd_stop zayd_name letters_text letters_stop letters_name)
qed

text \<open>
  C5 as stated fails for \<open>JarhWaTadilExtractor.extract_name\<close>, which has neither stop
  phrases nor a limit of six words: a name of three \<open>son of\<close> links is returned with its
  seven words.
\<close>

theorem chained_name_has_seven_words:
  "extract_name seven_words =
     Some [1575, 32, 1576, 1606, 32, 1576, 32, 1576, 1606, 32, 1578, 32, 1576, 1606, 32, 1579]
   \<and> length (py_split
        [1575, 32, 1576, 1606, 32, 1576, 32, 1576, 1606, 32, 1578, 32, 1576, 1606, 32, 1579]) = 7"
  by (simp add: seven_words_def a_eval decimal_blocks_def py_split_def)

end
